theory Spec2Isabelle
  imports Main
begin

section \<open>Data model (datastore/common.ts, as used by datastore/postgres-store.ts)\<close>

text \<open>
  Hashes, transaction ids and addresses are the hex / text strings the store receives;
  \<open>hexToBuffer\<close> and \<open>bufferToHexPrefixString\<close> only change their representation on the
  way into and out of a column and are not modelled. Block heights and indices are
  natural numbers, amounts are unbounded integers (\<open>bigint\<close>). A \<open>Buffer\<close> is a string.
\<close>

record DbBlock =
  block_hash :: string
  index_block_hash :: string
  parent_index_block_hash :: string
  parent_block_hash :: string
  parent_microblock :: string
  block_height :: nat
  burn_block_time :: nat
  canonical :: bool

datatype DbTxTypeId = TokenTransfer | SmartContract | ContractCall | PoisonMicroblock | Coinbase

datatype DbTxStatus = Pending | Success | Failed

text \<open>
  The columns of \<open>TX_COLUMNS\<close>. The eleven nullable, type-specific columns
  (\<open>token_transfer_*\<close>, \<open>smart_contract_*\<close>, \<open>contract_call_*\<close>, \<open>poison_microblock_*\<close>,
  \<open>coinbase_payload\<close>) are written verbatim by \<open>updateTx\<close> and read by none of the
  operations below; they are kept together in \<open>payload_columns\<close>, column name first.
\<close>

record DbTx =
  tx_id :: string
  tx_index :: nat
  index_block_hash :: string
  block_hash :: string
  block_height :: nat
  burn_block_time :: nat
  type_id :: DbTxTypeId
  status :: DbTxStatus
  canonical :: bool
  post_conditions :: "string option"
  fee_rate :: int
  sponsored :: bool
  sender_address :: string
  origin_hash_mode :: nat
  payload_columns :: "(string \<times> string) list"

record DbSmartContract =
  tx_id :: string
  contract_id :: string
  block_height :: nat
  source_code :: string
  abi :: string
  canonical :: bool

record DbEventBase =
  event_index :: nat
  tx_id :: string
  tx_index :: nat
  block_height :: nat
  canonical :: bool

record DbSmartContractEvent = DbEventBase +
  contract_identifier :: string
  topic :: string
  "value" :: string

datatype DbAssetEventTypeId = Transfer | Mint | Burn

record DbAssetEvent = DbEventBase +
  asset_event_type_id :: DbAssetEventTypeId
  sender :: "string option"
  recipient :: "string option"

record DbStxEvent = DbAssetEvent +
  amount :: int

record DbContractAssetEvent = DbAssetEvent +
  asset_identifier :: string

record DbFtEvent = DbContractAssetEvent +
  amount :: int

record DbNftEvent = DbContractAssetEvent +
  "value" :: string

text \<open>
  One entry of \<open>DataStoreUpdateData.txs\<close> and the batch itself, with the fields
  \<open>update\<close> reads.
\<close>

record TxEntry =
  tx :: DbTx
  stxEvents :: "DbStxEvent list"
  ftEvents :: "DbFtEvent list"
  nftEvents :: "DbNftEvent list"
  contractLogEvents :: "DbSmartContractEvent list"
  smartContracts :: "DbSmartContract list"

record DataStoreUpdateData =
  block :: DbBlock
  txs :: "TxEntry list"

subsection \<open>Tables\<close>

text \<open>
  A row of \<open>blocks\<close> or \<open>txs\<close> has the columns of the object written. A row of an event
  table or of \<open>smart_contracts\<close> has the columns of the object written and the column
  \<open>index_block_hash\<close>, which the insert takes from the owning transaction. Tables are
  lists in insertion order; a query without \<open>ORDER BY\<close> returns rows in table order.
\<close>

record 'e Row =
  row_index_block_hash :: string
  row_data :: 'e

record Database =
  blocks :: "DbBlock list"
  txs :: "DbTx list"
  stx_events :: "DbStxEvent Row list"
  ft_events :: "DbFtEvent Row list"
  nft_events :: "DbNftEvent Row list"
  contract_logs :: "DbSmartContractEvent Row list"
  smart_contracts :: "DbSmartContract Row list"

text \<open>SQL aggregates over no rows are \<open>NULL\<close>.\<close>

definition sql_sum :: "int list \<Rightarrow> int option" where
  "sql_sum xs = (if xs = [] then None else Some (sum_list xs))"

definition sql_max :: "nat list \<Rightarrow> nat option" where
  "sql_max xs = (if xs = [] then None else Some (fold max xs 0))"

section \<open>getChainTipHeight\<close>

record ChainTip =
  blockHeight :: nat
  blockHash :: string
  indexBlockHash :: string

text \<open>
  \<open>SELECT block_height, block_hash, index_block_hash FROM blocks
   WHERE canonical = true AND block_height = (SELECT MAX(block_height) FROM blocks)\<close>;
  the result is read from \<open>rows[0]\<close>, with height 0 and the empty buffer when there is
  no row.
\<close>

definition getChainTipHeight :: "Database \<Rightarrow> ChainTip" where
  "getChainTipHeight db =
     (let currentTipBlock =
            filter (\<lambda>b. DbBlock.canonical b \<and>
                         Some (DbBlock.block_height b) = sql_max (map DbBlock.block_height (blocks db)))
                   (blocks db)
      in case currentTipBlock of
           [] \<Rightarrow> \<lparr>blockHeight = 0, blockHash = [], indexBlockHash = []\<rparr>
         | r # _ \<Rightarrow> \<lparr>blockHeight = DbBlock.block_height r,
                     blockHash = DbBlock.block_hash r,
                     indexBlockHash = DbBlock.index_block_hash r\<rparr>)"

section \<open>getStxBalance\<close>

record StxBalance =
  balance :: int
  totalSent :: int
  totalReceived :: int

text \<open>
  The query builds \<open>transfers\<close> (canonical rows where the address is sender or recipient),
  then \<open>credit\<close> and \<open>debit\<close> as sums over it; a \<open>NULL\<close> sum is read as 0. A \<open>NULL\<close>
  sender or recipient equals no address.
\<close>

definition getStxBalance :: "Database \<Rightarrow> string \<Rightarrow> StxBalance" where
  "getStxBalance db stxAddress =
     (let transfers =
            filter (\<lambda>r. DbEventBase.canonical (row_data r) \<and>
                         (sender (row_data r) = Some stxAddress \<or>
                          recipient (row_data r) = Some stxAddress))
                   (stx_events db);
          credit_total =
            sql_sum (map (\<lambda>r. DbStxEvent.amount (row_data r))
                         (filter (\<lambda>r. recipient (row_data r) = Some stxAddress) transfers));
          debit_total =
            sql_sum (map (\<lambda>r. DbStxEvent.amount (row_data r))
                         (filter (\<lambda>r. sender (row_data r) = Some stxAddress) transfers));
          totalSent = (case debit_total of None \<Rightarrow> 0 | Some v \<Rightarrow> v);
          totalReceived = (case credit_total of None \<Rightarrow> 0 | Some v \<Rightarrow> v);
          balanceTotal = totalReceived - totalSent
      in \<lparr>balance = balanceTotal, totalSent = totalSent, totalReceived = totalReceived\<rparr>)"

section \<open>Canonical flags: markEntitiesCanonical, restoreOrphanedChain, handleReorg\<close>

record UpdatedEntities =
  blocks :: nat
  txs :: nat
  stxEvents :: nat
  ftEvents :: nat
  nftEvents :: nat
  contractLogs :: nat
  smartContracts :: nat

text \<open>The errors the store throws, one constructor for each \<open>throw\<close> and failing statement.\<close>

datatype PgError =
    OrphanNotFound string
  | MultipleOrphans string
  | MultipleOrphanedParents
  | MultipleParents nat string
  | ParentMissing nat string
  | UniqueViolation string

text \<open>
  \<open>UPDATE t SET ... WHERE ... RETURNING ...\<close>: the table after the statement, and the
  updated rows (\<open>rowCount\<close> is their number).
\<close>

definition sql_update :: "('r \<Rightarrow> bool) \<Rightarrow> ('r \<Rightarrow> 'r) \<Rightarrow> 'r list \<Rightarrow> 'r list \<times> 'r list" where
  "sql_update wh st t = (map (\<lambda>r. if wh r then st r else r) t, map st (filter wh t))"

text \<open>
  \<open>UPDATE t SET canonical = $2 WHERE index_block_hash = $1 AND canonical != $2\<close>, on \<open>txs\<close>,
  on the four event tables and on \<open>smart_contracts\<close>.
\<close>

definition mark_txs :: "string \<Rightarrow> bool \<Rightarrow> DbTx list \<Rightarrow> DbTx list \<times> DbTx list" where
  "mark_txs ibh c t =
     sql_update (\<lambda>r. DbTx.index_block_hash r = ibh \<and> DbTx.canonical r \<noteq> c)
                (\<lambda>r. r\<lparr>DbTx.canonical := c\<rparr>) t"

definition mark_events ::
  "string \<Rightarrow> bool \<Rightarrow> ('a DbEventBase_scheme) Row list
     \<Rightarrow> ('a DbEventBase_scheme) Row list \<times> ('a DbEventBase_scheme) Row list" where
  "mark_events ibh c t =
     sql_update (\<lambda>r. row_index_block_hash r = ibh \<and> DbEventBase.canonical (row_data r) \<noteq> c)
                (\<lambda>r. r\<lparr>row_data := (row_data r)\<lparr>DbEventBase.canonical := c\<rparr>\<rparr>) t"

definition mark_contracts ::
  "string \<Rightarrow> bool \<Rightarrow> DbSmartContract Row list
     \<Rightarrow> DbSmartContract Row list \<times> DbSmartContract Row list" where
  "mark_contracts ibh c t =
     sql_update (\<lambda>r. row_index_block_hash r = ibh \<and> DbSmartContract.canonical (row_data r) \<noteq> c)
                (\<lambda>r. r\<lparr>row_data := (row_data r)\<lparr>DbSmartContract.canonical := c\<rparr>\<rparr>) t"

definition markEntitiesCanonical ::
  "Database \<Rightarrow> string \<Rightarrow> bool \<Rightarrow> UpdatedEntities \<Rightarrow> Database \<times> UpdatedEntities" where
  "markEntitiesCanonical db ibh c updatedEntities =
     (let (t1, txResult) = mark_txs ibh c (Database.txs db);
          (t2, stxResults) = mark_events ibh c (stx_events db);
          (t3, ftResult) = mark_events ibh c (ft_events db);
          (t4, nftResult) = mark_events ibh c (nft_events db);
          (t5, contractLogResult) = mark_events ibh c (contract_logs db);
          (t6, smartContractResult) = mark_contracts ibh c (smart_contracts db)
      in (db\<lparr>Database.txs := t1, stx_events := t2, ft_events := t3, nft_events := t4,
              contract_logs := t5, smart_contracts := t6\<rparr>,
          updatedEntities\<lparr>
            UpdatedEntities.txs := UpdatedEntities.txs updatedEntities + length txResult,
            UpdatedEntities.stxEvents := UpdatedEntities.stxEvents updatedEntities + length stxResults,
            ftEvents := UpdatedEntities.ftEvents updatedEntities + length ftResult,
            nftEvents := UpdatedEntities.nftEvents updatedEntities + length nftResult,
            contractLogs := contractLogs updatedEntities + length contractLogResult,
            UpdatedEntities.smartContracts :=
              UpdatedEntities.smartContracts updatedEntities + length smartContractResult\<rparr>))"

text \<open>
  A call returns the counters, or the error thrown, together with the database the
  connection has reached at that point (the caller's transaction is still open).

  Heights are natural numbers, so the parent query's \<open>block_height = $1\<close> with
  \<open>$1 = block_height - 1\<close> is written \<open>Suc (block_height b) = block_height row0\<close>: at height 0
  the source asks for height \<open>-1\<close>, which no row has.
\<close>

function restoreOrphanedChain ::
  "Database \<Rightarrow> string \<Rightarrow> UpdatedEntities \<Rightarrow> (PgError + UpdatedEntities) \<times> Database" where
  "restoreOrphanedChain db ibh updatedEntities =
     (let (blocks1, blockResult) =
            sql_update (\<lambda>b. DbBlock.index_block_hash b = ibh \<and> DbBlock.canonical b = False)
                       (\<lambda>b. b\<lparr>DbBlock.canonical := True\<rparr>) (Database.blocks db);
          db1 = db\<lparr>Database.blocks := blocks1\<rparr>
      in if length blockResult = 0 then (Inl (OrphanNotFound ibh), db1)
         else if length blockResult > 1 then (Inl (MultipleOrphans ibh), db1)
         else
           let row0 = hd blockResult;
               (blocks2, orphanedBlockResult) =
                 sql_update (\<lambda>b. DbBlock.block_height b = DbBlock.block_height row0 \<and>
                                  DbBlock.index_block_hash b \<noteq> ibh \<and>
                                  DbBlock.canonical b = True)
                            (\<lambda>b. b\<lparr>DbBlock.canonical := False\<rparr>) (Database.blocks db1);
               db2 = db1\<lparr>Database.blocks := blocks2\<rparr>;
               (db3, ue3) =
                 (if length orphanedBlockResult > 0
                  then markEntitiesCanonical db2 (DbBlock.index_block_hash (hd orphanedBlockResult))
                         False updatedEntities
                  else (db2, updatedEntities));
               (db4, ue4) = markEntitiesCanonical db3 ibh True ue3;
               parentResult =
                 filter (\<lambda>b. Suc (DbBlock.block_height b) = DbBlock.block_height row0 \<and>
                              DbBlock.index_block_hash b = parent_index_block_hash row0 \<and>
                              DbBlock.canonical b = False)
                        (Database.blocks db4)
           in if length parentResult > 1 then (Inl MultipleOrphanedParents, db4)
              else if length parentResult > 0
              then restoreOrphanedChain db4 (DbBlock.index_block_hash (hd parentResult))
                     (ue4\<lparr>UpdatedEntities.blocks := UpdatedEntities.blocks ue4 + 1\<rparr>)
              else (Inr ue4, db4))"
  by pat_completeness auto

text \<open>
  The termination measure: one more than the height of the only non-canonical block
  with the given hash, and 0 when there is no such block or several.
\<close>

definition orphan_height :: "Database \<Rightarrow> string \<Rightarrow> nat" where
  "orphan_height db h =
     (case filter (\<lambda>b. DbBlock.index_block_hash b = h \<and> DbBlock.canonical b = False)
                  (Database.blocks db) of
        [b] \<Rightarrow> Suc (DbBlock.block_height b)
      | _ \<Rightarrow> 0)"

lemma filter_single_mem: "filter P xs = [a] \<Longrightarrow> p \<in> set xs \<Longrightarrow> P p \<Longrightarrow> p = a"
proof -
  assume f: "filter P xs = [a]" and m: "p \<in> set xs" "P p"
  from m have "p \<in> set (filter P xs)" by simp
  with f show "p = a" by simp
qed

lemma orphan_height_le:
  assumes "p \<in> set (Database.blocks db)" "DbBlock.canonical p = False"
  shows "orphan_height db (DbBlock.index_block_hash p) \<le> Suc (DbBlock.block_height p)"
proof (cases "filter (\<lambda>b. DbBlock.index_block_hash b = DbBlock.index_block_hash p \<and>
                          DbBlock.canonical b = False) (Database.blocks db)")
  case Nil
  then show ?thesis by (simp add: orphan_height_def)
next
  case (Cons a rest)
  show ?thesis
  proof (cases rest)
    case Nil
    with Cons have "p = a" using filter_single_mem[OF _ assms(1)] assms(2) by simp
    with Cons Nil show ?thesis by (simp add: orphan_height_def)
  next
    case (Cons c rest')
    with \<open>filter _ _ = a # rest\<close> show ?thesis by (simp add: orphan_height_def)
  qed
qed

lemma hd_in_filter:
  "0 < length (filter P xs) \<Longrightarrow> hd (filter P xs) \<in> set xs \<and> P (hd (filter P xs))"
proof -
  assume "0 < length (filter P xs)"
  then have "hd (filter P xs) \<in> set (filter P xs)" by (intro hd_in_set) auto
  then show ?thesis by (simp del: hd_in_set)
qed

lemma restore_call_decreases:
  assumes "sql_update (\<lambda>b. DbBlock.index_block_hash b = h \<and> DbBlock.canonical b = False)
             (\<lambda>b. b\<lparr>DbBlock.canonical := True\<rparr>) bs = (bs1, res)"
    and "length res \<noteq> 0" "\<not> 1 < length res"
    and "Database.blocks db = bs"
    and "parents = filter (\<lambda>b. Suc (DbBlock.block_height b) = DbBlock.block_height (hd res) \<and>
                               Q b \<and> DbBlock.canonical b = False) (Database.blocks db4)"
    and "0 < length parents"
  shows "orphan_height db4 (DbBlock.index_block_hash (hd parents)) < orphan_height db h"
proof -
  obtain b0 where b0:
    "filter (\<lambda>b. DbBlock.index_block_hash b = h \<and> DbBlock.canonical b = False) bs = [b0]"
    using assms(1-3)
    by (cases "filter (\<lambda>b. DbBlock.index_block_hash b = h \<and> DbBlock.canonical b = False) bs"
          rule: list.exhaust) (auto simp: sql_update_def)
  have res: "res = [b0\<lparr>DbBlock.canonical := True\<rparr>]"
    using assms(1) b0 by (auto simp: sql_update_def)
  have oh: "orphan_height db h = Suc (DbBlock.block_height b0)"
    using b0 assms(4) by (simp add: orphan_height_def)
  have p: "hd parents \<in> set (Database.blocks db4) \<and>
           Suc (DbBlock.block_height (hd parents)) = DbBlock.block_height (hd res) \<and>
           DbBlock.canonical (hd parents) = False"
    using hd_in_filter[of _ "Database.blocks db4"] assms(5,6) by blast
  then have "orphan_height db4 (DbBlock.index_block_hash (hd parents))
               \<le> Suc (DbBlock.block_height (hd parents))"
    using orphan_height_le by blast
  with p res oh show ?thesis by simp
qed

termination restoreOrphanedChain
proof (relation "measure (\<lambda>(db, h, ue). orphan_height db h)", goal_cases)
  case 1
  show ?case by simp
next
  case (2 db ibh updatedEntities x xa y xb xc xd xe ya xf xg xh yb xi xj yc xk)
  have "orphan_height xj (DbBlock.index_block_hash (hd xk)) < orphan_height db ibh"
    by (rule restore_call_decreases[where bs = "Database.blocks db" and ?bs1.0 = xa and res = y
          and Q = "\<lambda>b. DbBlock.index_block_hash b = parent_index_block_hash xc"])
       (use 2 in \<open>simp_all\<close>)
  then show ?case by simp
qed

declare restoreOrphanedChain.simps [simp del]

definition no_updates :: UpdatedEntities where
  "no_updates = \<lparr>UpdatedEntities.blocks = 0, UpdatedEntities.txs = 0,
                 UpdatedEntities.stxEvents = 0, ftEvents = 0, nftEvents = 0,
                 contractLogs = 0, UpdatedEntities.smartContracts = 0\<rparr>"

text \<open>
  \<open>handleReorg\<close>. The parent query runs only when \<open>block_height > 1\<close>, so
  \<open>block_height - 1\<close> is exact on natural numbers.
\<close>

definition handleReorg ::
  "Database \<Rightarrow> DbBlock \<Rightarrow> nat \<Rightarrow> (PgError + UpdatedEntities) \<times> Database" where
  "handleReorg db b chainTipHeight =
     (let updateEntities = no_updates
      in if DbBlock.block_height b > 1
         then
           let parentResult =
                 filter (\<lambda>r. DbBlock.block_height r = DbBlock.block_height b - 1 \<and>
                              DbBlock.index_block_hash r = parent_index_block_hash b)
                        (Database.blocks db)
           in if length parentResult > 1
              then (Inl (MultipleParents (DbBlock.block_height b - 1) (parent_index_block_hash b)), db)
              else if length parentResult = 0
              then (Inl (ParentMissing (DbBlock.block_height b - 1) (parent_index_block_hash b)), db)
              else if \<not> DbBlock.canonical (hd parentResult) \<and> DbBlock.block_height b > chainTipHeight
              then restoreOrphanedChain db (DbBlock.index_block_hash (hd parentResult))
                     (updateEntities\<lparr>UpdatedEntities.blocks := UpdatedEntities.blocks updateEntities + 1\<rparr>)
              else (Inr updateEntities, db)
         else (Inr updateEntities, db))"

section \<open>Ingestion: update\<close>

text \<open>
  A statement run on the connection: the value it returns or the error it throws, and
  the database the open transaction sees afterwards. A statement that throws leaves
  that database as it found it; the statements before it have already changed it.
\<close>

type_synonym 'a pg = "Database \<Rightarrow> (PgError + 'a) \<times> Database"

text \<open>\<open>INSERT INTO blocks ... ON CONFLICT (index_block_hash) DO NOTHING\<close>, returning \<open>rowCount\<close>.\<close>

definition updateBlock :: "Database \<Rightarrow> DbBlock \<Rightarrow> nat \<times> Database" where
  "updateBlock db b =
     (if DbBlock.index_block_hash b \<in> set (map DbBlock.index_block_hash (Database.blocks db))
      then (0, db)
      else (1, db\<lparr>Database.blocks := Database.blocks db @ [b]\<rparr>))"

text \<open>
  \<open>INSERT INTO txs ... ON CONFLICT ON CONSTRAINT unique_tx_id_index_block_hash DO NOTHING\<close>.
\<close>

definition updateTx :: "Database \<Rightarrow> DbTx \<Rightarrow> nat \<times> Database" where
  "updateTx db t =
     (if (DbTx.tx_id t, DbTx.index_block_hash t)
           \<in> set (map (\<lambda>r. (DbTx.tx_id r, DbTx.index_block_hash r)) (Database.txs db))
      then (0, db)
      else (1, db\<lparr>Database.txs := Database.txs db @ [t]\<rparr>))"

text \<open>
  Modelled from the spec: the unique key of the four event tables, which the migrations
  creating them (not among the sources) declare. The spec keys every event table by
  (\<open>event_index\<close>, \<open>tx_id\<close>, \<open>index_block_hash\<close>), and a write that violates a uniqueness
  invariant aborts the batch. The event inserts have no \<open>ON CONFLICT\<close> clause, so an
  insert on a key already present throws.
\<close>

definition event_key :: "('a DbEventBase_scheme) Row \<Rightarrow> nat \<times> string \<times> string" where
  "event_key r = (event_index (row_data r), DbEventBase.tx_id (row_data r), row_index_block_hash r)"

definition insert_event ::
  "string \<Rightarrow> ('a DbEventBase_scheme) Row \<Rightarrow> ('a DbEventBase_scheme) Row list
     \<Rightarrow> PgError + ('a DbEventBase_scheme) Row list" where
  "insert_event table_name r t =
     (if event_key r \<in> set (map event_key t) then Inl (UniqueViolation table_name)
      else Inr (t @ [r]))"

definition updateStxEvent :: "DbTx \<Rightarrow> DbStxEvent \<Rightarrow> unit pg" where
  "updateStxEvent t event db =
     (case insert_event ''stx_events''
             \<lparr>row_index_block_hash = DbTx.index_block_hash t, row_data = event\<rparr> (stx_events db) of
        Inl e \<Rightarrow> (Inl e, db)
      | Inr rows \<Rightarrow> (Inr (), db\<lparr>stx_events := rows\<rparr>))"

definition updateFtEvent :: "DbTx \<Rightarrow> DbFtEvent \<Rightarrow> unit pg" where
  "updateFtEvent t event db =
     (case insert_event ''ft_events''
             \<lparr>row_index_block_hash = DbTx.index_block_hash t, row_data = event\<rparr> (ft_events db) of
        Inl e \<Rightarrow> (Inl e, db)
      | Inr rows \<Rightarrow> (Inr (), db\<lparr>ft_events := rows\<rparr>))"

definition updateNftEvent :: "DbTx \<Rightarrow> DbNftEvent \<Rightarrow> unit pg" where
  "updateNftEvent t event db =
     (case insert_event ''nft_events''
             \<lparr>row_index_block_hash = DbTx.index_block_hash t, row_data = event\<rparr> (nft_events db) of
        Inl e \<Rightarrow> (Inl e, db)
      | Inr rows \<Rightarrow> (Inr (), db\<lparr>nft_events := rows\<rparr>))"

definition updateSmartContractEvent :: "DbTx \<Rightarrow> DbSmartContractEvent \<Rightarrow> unit pg" where
  "updateSmartContractEvent t event db =
     (case insert_event ''contract_logs''
             \<lparr>row_index_block_hash = DbTx.index_block_hash t, row_data = event\<rparr> (contract_logs db) of
        Inl e \<Rightarrow> (Inl e, db)
      | Inr rows \<Rightarrow> (Inr (), db\<lparr>contract_logs := rows\<rparr>))"

text \<open>\<open>INSERT INTO smart_contracts ...\<close>: no key is declared for this table.\<close>

definition updateSmartContract :: "DbTx \<Rightarrow> DbSmartContract \<Rightarrow> unit pg" where
  "updateSmartContract t smartContract db =
     (Inr (), db\<lparr>smart_contracts := smart_contracts db @
                   [\<lparr>row_index_block_hash = DbTx.index_block_hash t, row_data = smartContract\<rparr>]\<rparr>)"

text \<open>\<open>for (const x of xs) { await f(x); }\<close>: stops at the first statement that throws.\<close>

fun forEach :: "('a \<Rightarrow> unit pg) \<Rightarrow> 'a list \<Rightarrow> unit pg" where
  "forEach f [] db = (Inr (), db)"
| "forEach f (x # xs) db =
     (case f x db of
        (Inl e, db') \<Rightarrow> (Inl e, db')
      | (Inr _, db') \<Rightarrow> forEach f xs db')"

definition and_then :: "unit pg \<Rightarrow> unit pg \<Rightarrow> unit pg" where
  "and_then f g db =
     (case f db of
        (Inl e, db') \<Rightarrow> (Inl e, db')
      | (Inr _, db') \<Rightarrow> g db')"

text \<open>The body of the loop \<open>for (const entry of data.txs)\<close>.\<close>

definition update_entry :: "TxEntry \<Rightarrow> unit pg" where
  "update_entry entry db =
     and_then (forEach (updateStxEvent (tx entry)) (TxEntry.stxEvents entry))
    (and_then (forEach (updateFtEvent (tx entry)) (TxEntry.ftEvents entry))
    (and_then (forEach (updateNftEvent (tx entry)) (TxEntry.nftEvents entry))
    (and_then (forEach (updateSmartContractEvent (tx entry)) (contractLogEvents entry))
              (forEach (updateSmartContract (tx entry)) (TxEntry.smartContracts entry)))))
      (snd (updateTx db (tx entry)))"

text \<open>
  The assignments under \<open>if (data.block.block_height <= chainTip.blockHeight)\<close>; they
  change the caller's objects, which are the ones inserted and emitted afterwards.
\<close>

definition store_as_non_canonical :: "DataStoreUpdateData \<Rightarrow> DataStoreUpdateData" where
  "store_as_non_canonical d =
     d\<lparr>block := (block d)\<lparr>DbBlock.canonical := False\<rparr>,
       DataStoreUpdateData.txs :=
         map (\<lambda>entry. entry\<lparr>
                tx := (tx entry)\<lparr>DbTx.canonical := False\<rparr>,
                TxEntry.stxEvents :=
                  map (\<lambda>e. e\<lparr>DbEventBase.canonical := False\<rparr>) (TxEntry.stxEvents entry),
                TxEntry.ftEvents :=
                  map (\<lambda>e. e\<lparr>DbEventBase.canonical := False\<rparr>) (TxEntry.ftEvents entry),
                TxEntry.nftEvents :=
                  map (\<lambda>e. e\<lparr>DbEventBase.canonical := False\<rparr>) (TxEntry.nftEvents entry),
                contractLogEvents :=
                  map (\<lambda>e. e\<lparr>DbEventBase.canonical := False\<rparr>) (contractLogEvents entry),
                TxEntry.smartContracts :=
                  map (\<lambda>e. e\<lparr>DbSmartContract.canonical := False\<rparr>) (TxEntry.smartContracts entry)\<rparr>)
             (DataStoreUpdateData.txs d)\<rparr>"

text \<open>
  The statements of \<open>update\<close> between \<open>BEGIN\<close> and \<open>COMMIT\<close> (the \<open>try\<close> block up to
  the commit): the batch as it stands afterwards, or the error thrown, and the database
  the open transaction has reached.
\<close>

definition update_statements :: "Database \<Rightarrow> DataStoreUpdateData \<Rightarrow> (PgError + DataStoreUpdateData) \<times> Database" where
  "update_statements db d =
     (let chainTip = getChainTipHeight db
      in case handleReorg db (block d) (blockHeight chainTip) of
           (Inl e, db1) \<Rightarrow> (Inl e, db1)
         | (Inr _, db1) \<Rightarrow>
             let d1 = (if DbBlock.block_height (block d) \<le> blockHeight chainTip
                       then store_as_non_canonical d else d);
                 (blocksUpdated, db2) = updateBlock db1 (block d1)
             in if blocksUpdated \<noteq> 0
                then (case forEach update_entry (DataStoreUpdateData.txs d1) db2 of
                        (Inl e, db3) \<Rightarrow> (Inl e, db3)
                      | (Inr _, db3) \<Rightarrow> (Inr d1, db3))
                else (Inr d1, db2))"

text \<open>
  What the connection and the emitter do, in order. \<open>update\<close> returns its result, the
  committed database and this trace. \<open>ROLLBACK\<close> leaves the committed database as it
  was at \<open>BEGIN\<close>; \<open>COMMIT\<close> makes what the transaction reached the committed database.
  The listeners that \<open>emit\<close> runs belong to the subscribers and are taken not to throw.
\<close>

datatype Notification = blockUpdate DbBlock | txUpdate DbTx

datatype Effect = Begin | Commit | Rollback | Emit Notification

definition update :: "Database \<Rightarrow> DataStoreUpdateData \<Rightarrow> (PgError + unit) \<times> Database \<times> Effect list" where
  "update db d =
     (case update_statements db d of
        (Inr d1, db') \<Rightarrow>
          (Inr (), db',
           [Begin, Commit, Emit (blockUpdate (block d1))] @
           map (\<lambda>entry. Emit (txUpdate (tx entry))) (DataStoreUpdateData.txs d1))
      | (Inl e, db') \<Rightarrow> (Inl e, db, [Begin, Rollback]))"

section \<open>Notions the properties are stated with\<close>

text \<open>
  The stored blocks that match (\<open>block_height - 1\<close>, \<open>parent_index_block_hash\<close>) of an
  incoming block of height greater than 1.
\<close>

definition parent_rows :: "Database \<Rightarrow> DbBlock \<Rightarrow> DbBlock list" where
  "parent_rows db b =
     filter (\<lambda>r. DbBlock.block_height r = DbBlock.block_height b - 1 \<and>
                  DbBlock.index_block_hash r = parent_index_block_hash b)
            (Database.blocks db)"

text \<open>
  The batch as \<open>update\<close> inserts and emits it: with every \<open>canonical\<close> flag cleared
  when the block is not higher than the chain tip height read at the start.
\<close>

definition stored_batch :: "Database \<Rightarrow> DataStoreUpdateData \<Rightarrow> DataStoreUpdateData" where
  "stored_batch db d =
     (if DbBlock.block_height (block d) \<le> blockHeight (getChainTipHeight db)
      then store_as_non_canonical d else d)"

text \<open>The notifications of a trace, in order, and the \<open>tx_index\<close> of each \<open>txUpdate\<close> among them.\<close>

definition emitted :: "Effect list \<Rightarrow> Notification list" where
  "emitted tr = concat (map (\<lambda>e. case e of Emit n \<Rightarrow> [n] | _ \<Rightarrow> []) tr)"

definition emitted_tx_indices :: "Effect list \<Rightarrow> nat list" where
  "emitted_tx_indices tr =
     concat (map (\<lambda>n. case n of txUpdate t \<Rightarrow> [DbTx.tx_index t] | _ \<Rightarrow> []) (emitted tr))"

text \<open>
  \<open>extends_with P old new\<close>: the table \<open>new\<close> is \<open>old\<close> followed by rows that satisfy \<open>P\<close>.
  \<open>stored_non_canonical db db'\<close>: every table of \<open>db'\<close> is the table of \<open>db\<close>, unchanged,
  followed by rows whose \<open>canonical\<close> flag is false.
\<close>

definition extends_with :: "('a \<Rightarrow> bool) \<Rightarrow> 'a list \<Rightarrow> 'a list \<Rightarrow> bool" where
  "extends_with P old new \<longleftrightarrow>
     take (length old) new = old \<and> list_all P (drop (length old) new)"

definition stored_non_canonical :: "Database \<Rightarrow> Database \<Rightarrow> bool" where
  "stored_non_canonical db db' \<longleftrightarrow>
     extends_with (\<lambda>r. DbBlock.canonical r = False) (Database.blocks db) (Database.blocks db') \<and>
     extends_with (\<lambda>r. DbTx.canonical r = False) (Database.txs db) (Database.txs db') \<and>
     extends_with (\<lambda>r. DbEventBase.canonical (row_data r) = False) (stx_events db) (stx_events db') \<and>
     extends_with (\<lambda>r. DbEventBase.canonical (row_data r) = False) (ft_events db) (ft_events db') \<and>
     extends_with (\<lambda>r. DbEventBase.canonical (row_data r) = False) (nft_events db) (nft_events db') \<and>
     extends_with (\<lambda>r. DbEventBase.canonical (row_data r) = False) (contract_logs db) (contract_logs db') \<and>
     extends_with (\<lambda>r. DbSmartContract.canonical (row_data r) = False) (smart_contracts db) (smart_contracts db')"

text \<open>
  The non-canonical blocks with a given \<open>index_block_hash\<close>: what the first \<open>UPDATE\<close> of
  \<open>restoreOrphanedChain\<close> restores.
\<close>

definition orphans_of :: "Database \<Rightarrow> string \<Rightarrow> DbBlock list" where
  "orphans_of db h =
     filter (\<lambda>x. DbBlock.index_block_hash x = h \<and> \<not> DbBlock.canonical x) (Database.blocks db)"

text \<open>
  \<open>restoreOrphanedChain\<close> in the words of its description. \<open>mark_entities h c\<close> marks all
  entities with \<open>index_block_hash\<close> \<open>h\<close>: it sets \<open>canonical\<close> to \<open>c\<close> in every such row of
  \<open>txs\<close>, of the four event tables and of \<open>smart_contracts\<close>. \<open>restore_one_spec\<close> sets the
  block with hash \<open>h\<close> to canonical, sets every other canonical block at its height to
  non-canonical and marks the entities of each such block non-canonical, then marks the
  entities of \<open>h\<close> canonical. \<open>restoreOrphanedChain_spec\<close> fails when no non-canonical block
  has hash \<open>h\<close> or several have, does the above for the one that has, and recurses on its
  parent when a non-canonical block exists at (\<open>block_height - 1\<close>, \<open>parent_index_block_hash\<close>).
  \<open>outcome\<close> is what a caller that rolls back on an error is left with.
\<close>

definition mark_entities :: "string \<Rightarrow> bool \<Rightarrow> Database \<Rightarrow> Database" where
  "mark_entities h c db =
     db\<lparr>Database.txs :=
          map (\<lambda>r. if DbTx.index_block_hash r = h then r\<lparr>DbTx.canonical := c\<rparr> else r)
              (Database.txs db),
        stx_events :=
          map (\<lambda>r. if row_index_block_hash r = h
                    then r\<lparr>row_data := (row_data r)\<lparr>DbEventBase.canonical := c\<rparr>\<rparr> else r)
              (stx_events db),
        ft_events :=
          map (\<lambda>r. if row_index_block_hash r = h
                    then r\<lparr>row_data := (row_data r)\<lparr>DbEventBase.canonical := c\<rparr>\<rparr> else r)
              (ft_events db),
        nft_events :=
          map (\<lambda>r. if row_index_block_hash r = h
                    then r\<lparr>row_data := (row_data r)\<lparr>DbEventBase.canonical := c\<rparr>\<rparr> else r)
              (nft_events db),
        contract_logs :=
          map (\<lambda>r. if row_index_block_hash r = h
                    then r\<lparr>row_data := (row_data r)\<lparr>DbEventBase.canonical := c\<rparr>\<rparr> else r)
              (contract_logs db),
        smart_contracts :=
          map (\<lambda>r. if row_index_block_hash r = h
                    then r\<lparr>row_data := (row_data r)\<lparr>DbSmartContract.canonical := c\<rparr>\<rparr> else r)
              (smart_contracts db)\<rparr>"

definition restore_one_spec :: "Database \<Rightarrow> string \<Rightarrow> DbBlock \<Rightarrow> Database" where
  "restore_one_spec db h b =
     (let others = filter (\<lambda>x. DbBlock.block_height x = DbBlock.block_height b \<and>
                                DbBlock.index_block_hash x \<noteq> h \<and> DbBlock.canonical x)
                          (Database.blocks db);
          db1 = db\<lparr>Database.blocks :=
                  map (\<lambda>x. if DbBlock.index_block_hash x = h then x\<lparr>DbBlock.canonical := True\<rparr>
                            else if x \<in> set others then x\<lparr>DbBlock.canonical := False\<rparr>
                            else x)
                      (Database.blocks db)\<rparr>;
          db2 = fold (\<lambda>x. mark_entities (DbBlock.index_block_hash x) False) others db1
      in mark_entities h True db2)"

function restoreOrphanedChain_spec :: "Database \<Rightarrow> string \<Rightarrow> PgError + Database" where
  "restoreOrphanedChain_spec db h =
     (case orphans_of db h of
        [] \<Rightarrow> Inl (OrphanNotFound h)
      | [b] \<Rightarrow>
          (let db3 = restore_one_spec db h b
           in if \<exists>p \<in> set (Database.blocks db3).
                   Suc (DbBlock.block_height p) = DbBlock.block_height b \<and>
                   DbBlock.index_block_hash p = parent_index_block_hash b \<and>
                   \<not> DbBlock.canonical p
              then restoreOrphanedChain_spec db3 (parent_index_block_hash b)
              else Inr db3)
      | _ \<Rightarrow> Inl (MultipleOrphans h))"
  by pat_completeness auto

termination restoreOrphanedChain_spec
proof (relation "measure (\<lambda>(db, h). orphan_height db h)", goal_cases)
  case 1
  show ?case by simp
next
  case (2 db h b bs db3)
  from 2(4) obtain p where p: "p \<in> set (Database.blocks db3)"
    "Suc (DbBlock.block_height p) = DbBlock.block_height b"
    "DbBlock.index_block_hash p = parent_index_block_hash b" "\<not> DbBlock.canonical p"
    by blast
  have "orphan_height db3 (DbBlock.index_block_hash p) \<le> Suc (DbBlock.block_height p)"
    using orphan_height_le[OF p(1)] p(4) by simp
  moreover have "orphan_height db h = Suc (DbBlock.block_height b)"
    using 2(1,2) by (simp add: orphan_height_def orphans_of_def)
  ultimately show ?case using p(2,3) by simp
qed

declare restoreOrphanedChain_spec.simps [simp del]

definition outcome :: "(PgError + 'a) \<times> Database \<Rightarrow> PgError + Database" where
  "outcome r = (case r of (Inl e, _) \<Rightarrow> Inl e | (Inr _, db') \<Rightarrow> Inr db')"


text \<open>A database with every \<open>canonical\<close> flag cleared: its rows, whatever chain they are on.\<close>

definition forget_canonical :: "Database \<Rightarrow> Database" where
  "forget_canonical db =
     \<lparr>Database.blocks = map (\<lambda>r. r\<lparr>DbBlock.canonical := False\<rparr>) (Database.blocks db),
      Database.txs = map (\<lambda>r. r\<lparr>DbTx.canonical := False\<rparr>) (Database.txs db),
      stx_events = map (\<lambda>r. r\<lparr>row_data := (row_data r)\<lparr>DbEventBase.canonical := False\<rparr>\<rparr>) (stx_events db),
      ft_events = map (\<lambda>r. r\<lparr>row_data := (row_data r)\<lparr>DbEventBase.canonical := False\<rparr>\<rparr>) (ft_events db),
      nft_events = map (\<lambda>r. r\<lparr>row_data := (row_data r)\<lparr>DbEventBase.canonical := False\<rparr>\<rparr>) (nft_events db),
      contract_logs =
        map (\<lambda>r. r\<lparr>row_data := (row_data r)\<lparr>DbEventBase.canonical := False\<rparr>\<rparr>) (contract_logs db),
      smart_contracts =
        map (\<lambda>r. r\<lparr>row_data := (row_data r)\<lparr>DbSmartContract.canonical := False\<rparr>\<rparr>) (smart_contracts db)\<rparr>"

text \<open>
  The rows a batch puts into an event table or into \<open>smart_contracts\<close>: for each
  transaction of the batch in turn, one row per event of that transaction, tagged with
  the transaction's \<open>index_block_hash\<close>. \<open>entry_rows\<close> appends the rows of one
  transaction to the five tables. \<open>tx_key\<close> is the key of the constraint
  \<open>unique_tx_id_index_block_hash\<close>.
\<close>

definition rows_of :: "(TxEntry \<Rightarrow> 'e list) \<Rightarrow> TxEntry list \<Rightarrow> 'e Row list" where
  "rows_of events es =
     concat (map (\<lambda>entry. map (\<lambda>e. \<lparr>row_index_block_hash = DbTx.index_block_hash (tx entry),
                                       row_data = e\<rparr>) (events entry)) es)"

definition entry_rows :: "TxEntry \<Rightarrow> Database \<Rightarrow> Database" where
  "entry_rows entry db =
     db\<lparr>stx_events := stx_events db @ rows_of TxEntry.stxEvents [entry],
        ft_events := ft_events db @ rows_of TxEntry.ftEvents [entry],
        nft_events := nft_events db @ rows_of TxEntry.nftEvents [entry],
        contract_logs := contract_logs db @ rows_of contractLogEvents [entry],
        smart_contracts := smart_contracts db @ rows_of TxEntry.smartContracts [entry]\<rparr>"

definition tx_key :: "DbTx \<Rightarrow> string \<times> string" where
  "tx_key t = (DbTx.tx_id t, DbTx.index_block_hash t)"

section \<open>Example data\<close>

text \<open>Small blocks, transactions, events and databases, used to run the model.\<close>

definition mk_block :: "string \<Rightarrow> string \<Rightarrow> nat \<Rightarrow> bool \<Rightarrow> DbBlock" where
  "mk_block h parent n c =
     \<lparr>DbBlock.block_hash = h, DbBlock.index_block_hash = h, parent_index_block_hash = parent,
      parent_block_hash = parent, parent_microblock = [], DbBlock.block_height = n,
      DbBlock.burn_block_time = 0, DbBlock.canonical = c\<rparr>"

definition mk_tx :: "string \<Rightarrow> nat \<Rightarrow> string \<Rightarrow> nat \<Rightarrow> bool \<Rightarrow> DbTx" where
  "mk_tx i k h n c =
     \<lparr>DbTx.tx_id = i, DbTx.tx_index = k, DbTx.index_block_hash = h, DbTx.block_hash = h,
      DbTx.block_height = n, DbTx.burn_block_time = 0, type_id = Coinbase, status = Success,
      DbTx.canonical = c, post_conditions = None, fee_rate = 0, sponsored = False,
      sender_address = ''SP1'', origin_hash_mode = 0, payload_columns = []\<rparr>"

definition mk_stx ::
  "nat \<Rightarrow> string \<Rightarrow> nat \<Rightarrow> bool \<Rightarrow> string option \<Rightarrow> string option \<Rightarrow> int \<Rightarrow> DbStxEvent" where
  "mk_stx i t n c s r a =
     \<lparr>event_index = i, DbEventBase.tx_id = t, DbEventBase.tx_index = 0,
      DbEventBase.block_height = n, DbEventBase.canonical = c,
      asset_event_type_id = Transfer, sender = s, recipient = r, DbStxEvent.amount = a\<rparr>"

definition mk_entry :: "DbTx \<Rightarrow> DbStxEvent list \<Rightarrow> TxEntry" where
  "mk_entry t evs =
     \<lparr>tx = t, TxEntry.stxEvents = evs, TxEntry.ftEvents = [], TxEntry.nftEvents = [],
      contractLogEvents = [], TxEntry.smartContracts = []\<rparr>"

definition empty_db :: Database where
  "empty_db = \<lparr>Database.blocks = [], Database.txs = [], stx_events = [], ft_events = [],
               nft_events = [], contract_logs = [], smart_contracts = []\<rparr>"

text \<open>Address A receives 100 and sends 30 on the canonical chain; an orphaned event pays it 1000.\<close>

definition db_balance :: Database where
  "db_balance = empty_db\<lparr>stx_events :=
     [\<lparr>row_index_block_hash = ''X'', row_data = mk_stx 0 ''t1'' 1 True None (Some ''A'') 100\<rparr>,
      \<lparr>row_index_block_hash = ''X'', row_data = mk_stx 1 ''t1'' 1 True (Some ''A'') (Some ''B'') 30\<rparr>,
      \<lparr>row_index_block_hash = ''Y'', row_data = mk_stx 0 ''t2'' 1 False (Some ''B'') (Some ''A'') 1000\<rparr>]\<rparr>"

text \<open>A canonical block at height 1 below a non-canonical block at height 2.\<close>

definition db_orphan_tip :: Database where
  "db_orphan_tip =
     empty_db\<lparr>Database.blocks := [mk_block ''A'' ''G'' 1 True, mk_block ''B'' ''A'' 2 False]\<rparr>"

text \<open>
  A chain A, B, C of heights 1 to 3 and an orphaned branch B2, C2 from A, each branch
  with a transaction and an STX event at height 2.
\<close>

definition db_fork :: Database where
  "db_fork = empty_db\<lparr>
     Database.blocks :=
       [mk_block ''A'' ''G'' 1 True, mk_block ''B'' ''A'' 2 True, mk_block ''C'' ''B'' 3 True,
        mk_block ''B2'' ''A'' 2 False, mk_block ''C2'' ''B2'' 3 False],
     Database.txs := [mk_tx ''t1'' 0 ''B'' 2 True, mk_tx ''t2'' 0 ''B2'' 2 False],
     stx_events :=
       [\<lparr>row_index_block_hash = ''B'', row_data = mk_stx 0 ''t1'' 2 True None (Some ''A'') 100\<rparr>,
        \<lparr>row_index_block_hash = ''B2'', row_data = mk_stx 0 ''t2'' 2 False None (Some ''A'') 5\<rparr>]\<rparr>"

text \<open>
  Three batches: a block on C whose transaction carries two STX events with one key; a
  genesis block whose transactions are listed with \<open>tx_index\<close> 1 before 0; the stored
  block C delivered again.
\<close>

definition batch_dup_events :: DataStoreUpdateData where
  "batch_dup_events =
     \<lparr>block = mk_block ''D'' ''C'' 4 True,
      DataStoreUpdateData.txs =
        [mk_entry (mk_tx ''t3'' 0 ''D'' 4 True)
           [mk_stx 0 ''t3'' 4 True None (Some ''A'') 7, mk_stx 0 ''t3'' 4 True None (Some ''A'') 8]]\<rparr>"

definition batch_unsorted :: DataStoreUpdateData where
  "batch_unsorted =
     \<lparr>block = mk_block ''A'' ''G'' 1 True,
      DataStoreUpdateData.txs =
        [mk_entry (mk_tx ''t1'' 1 ''A'' 1 True) [], mk_entry (mk_tx ''t0'' 0 ''A'' 1 True) []]\<rparr>"

definition batch_redelivered :: DataStoreUpdateData where
  "batch_redelivered =
     \<lparr>block = mk_block ''C'' ''B'' 3 True,
      DataStoreUpdateData.txs = [mk_entry (mk_tx ''t9'' 0 ''C'' 3 True) []]\<rparr>"

text \<open>A second block at height 2 on A, and a block at height 4 on the orphaned C2.\<close>

definition batch_sibling :: DataStoreUpdateData where
  "batch_sibling =
     \<lparr>block = mk_block ''B3'' ''A'' 2 True,
      DataStoreUpdateData.txs =
        [mk_entry (mk_tx ''t4'' 0 ''B3'' 2 True) [mk_stx 0 ''t4'' 2 True None (Some ''A'') 9]]\<rparr>"

definition batch_reorg :: DataStoreUpdateData where
  "batch_reorg =
     \<lparr>block = mk_block ''D2'' ''C2'' 4 True,
      DataStoreUpdateData.txs =
        [mk_entry (mk_tx ''t5'' 0 ''D2'' 4 True) [mk_stx 0 ''t5'' 4 True None (Some ''A'') 7]]\<rparr>"

text \<open>
  \<open>db_fork\<close> after C2 is restored and C orphaned, and a database holding one canonical
  block.
\<close>

definition db_fork_c2 :: Database where
  "db_fork_c2 = db_fork\<lparr>Database.blocks :=
       [mk_block ''A'' ''G'' 1 True, mk_block ''B'' ''A'' 2 True, mk_block ''C'' ''B'' 3 False,
        mk_block ''B2'' ''A'' 2 False, mk_block ''C2'' ''B2'' 3 True]\<rparr>"

definition db_single :: Database where
  "db_single = empty_db\<lparr>Database.blocks := [mk_block ''A'' ''G'' 1 True]\<rparr>"

text \<open>
  A first block A at height 1, a block B on A delivered with \<open>canonical = false\<close>, and a
  second block at height 1 with a transaction and an STX event.
\<close>

definition batch_genesis :: DataStoreUpdateData where
  "batch_genesis = \<lparr>block = mk_block ''A'' ''G'' 1 True, DataStoreUpdateData.txs = []\<rparr>"

definition batch_orphan :: DataStoreUpdateData where
  "batch_orphan = \<lparr>block = mk_block ''B'' ''A'' 2 False, DataStoreUpdateData.txs = []\<rparr>"

definition batch_low :: DataStoreUpdateData where
  "batch_low =
     \<lparr>block = mk_block ''A2'' ''G'' 1 True,
      DataStoreUpdateData.txs =
        [mk_entry (mk_tx ''t6'' 0 ''A2'' 1 True) [mk_stx 0 ''t6'' 1 True None (Some ''A'') 9]]\<rparr>"

lemmas example_defs =
  empty_db_def db_fork_def mk_block_def mk_tx_def mk_stx_def mk_entry_def no_updates_def

lemmas reorg_defs =
  restoreOrphanedChain.simps sql_update_def markEntitiesCanonical_def
  mark_txs_def mark_events_def mark_contracts_def Let_def

lemmas update_defs =
  update_def update_statements_def handleReorg_def getChainTipHeight_def sql_max_def
  updateBlock_def updateTx_def update_entry_def and_then_def store_as_non_canonical_def
  updateStxEvent_def updateFtEvent_def updateNftEvent_def updateSmartContractEvent_def
  updateSmartContract_def insert_event_def event_key_def

section \<open>Auxiliary definitions and lemmas\<close>

subsection \<open>One activation of restoreOrphanedChain\<close>

text \<open>
  One activation of \<open>restoreOrphanedChain\<close> up to its parent query, for the block \<open>b\<close> it
  restores: the \<open>blocks\<close> table after the two \<open>UPDATE\<close> statements, and the database and
  counters after the two calls of \<open>markEntitiesCanonical\<close>. \<open>kept h n x y\<close> relates a block
  row before and after a restoration that starts at hash \<open>h\<close> and height \<open>n\<close>: only the flag
  may differ, the restored row is canonical, and canonical rows above stay canonical.
\<close>

definition restored_blocks :: "string \<Rightarrow> nat \<Rightarrow> DbBlock list \<Rightarrow> DbBlock list" where
  "restored_blocks h n bs =
     map (\<lambda>x. if DbBlock.index_block_hash x = h \<and> \<not> DbBlock.canonical x
               then x\<lparr>DbBlock.canonical := True\<rparr>
               else if DbBlock.block_height x = n \<and> DbBlock.index_block_hash x \<noteq> h \<and> DbBlock.canonical x
               then x\<lparr>DbBlock.canonical := False\<rparr>
               else x) bs"

definition restore_step :: "Database \<Rightarrow> string \<Rightarrow> DbBlock \<Rightarrow> UpdatedEntities \<Rightarrow> Database \<times> UpdatedEntities" where
  "restore_step db h b ue =
     (let orphans = filter (\<lambda>x. DbBlock.block_height x = DbBlock.block_height b \<and>
                                DbBlock.index_block_hash x \<noteq> h \<and> DbBlock.canonical x)
                           (Database.blocks db);
          db2 = db\<lparr>Database.blocks := restored_blocks h (DbBlock.block_height b) (Database.blocks db)\<rparr>;
          r3 = (if orphans \<noteq> []
                then markEntitiesCanonical db2 (DbBlock.index_block_hash (hd orphans)) False ue
                else (db2, ue))
      in markEntitiesCanonical (fst r3) h True (snd r3))"

lemma map_if_filter_empty: "filter P xs = [] \<Longrightarrow> map (\<lambda>r. if P r then f r else r) xs = xs"
  by (induction xs) (auto split: if_splits)

lemma restore_not_found:
  assumes "filter (\<lambda>b. DbBlock.index_block_hash b = h \<and> \<not> DbBlock.canonical b) (Database.blocks db) = []"
  shows "restoreOrphanedChain db h ue = (Inl (OrphanNotFound h), db)"
  using assms map_if_filter_empty[OF assms, of "\<lambda>b. b\<lparr>DbBlock.canonical := True\<rparr>"]
  by (simp add: restoreOrphanedChain.simps sql_update_def)

lemma restore_multiple:
  assumes "1 < length (filter (\<lambda>b. DbBlock.index_block_hash b = h \<and> \<not> DbBlock.canonical b) (Database.blocks db))"
  shows "fst (restoreOrphanedChain db h ue) = Inl (MultipleOrphans h)"
proof -
  from assms have "filter (\<lambda>b. DbBlock.index_block_hash b = h \<and> \<not> DbBlock.canonical b) (Database.blocks db) \<noteq> []"
    by auto
  with assms show ?thesis
    by (simp add: restoreOrphanedChain.simps sql_update_def Let_def)
qed

lemma orphans_after_flip:
  "filter (\<lambda>b. DbBlock.block_height b = n \<and> DbBlock.index_block_hash b \<noteq> h \<and> DbBlock.canonical b)
     (map (\<lambda>r. if DbBlock.index_block_hash r = h \<and> \<not> DbBlock.canonical r
                then r\<lparr>DbBlock.canonical := True\<rparr> else r) bs)
   = filter (\<lambda>x. DbBlock.block_height x = n \<and> DbBlock.index_block_hash x \<noteq> h \<and> DbBlock.canonical x) bs"
  by (induction bs) auto

lemma restored_blocks_eq:
  "map ((\<lambda>r. if DbBlock.block_height r = n \<and> DbBlock.index_block_hash r \<noteq> h \<and> DbBlock.canonical r
             then r\<lparr>DbBlock.canonical := False\<rparr> else r) \<circ>
        (\<lambda>r. if DbBlock.index_block_hash r = h \<and> \<not> DbBlock.canonical r
                then r\<lparr>DbBlock.canonical := True\<rparr> else r)) bs
   = restored_blocks h n bs"
  by (induction bs) (auto simp: restored_blocks_def)

lemma hd_map_ne: "xs \<noteq> [] \<Longrightarrow> hd (map f xs) = f (hd xs)"
  by (cases xs) auto

lemma restore_unfold:
  assumes "filter (\<lambda>b. DbBlock.index_block_hash b = h \<and> \<not> DbBlock.canonical b) (Database.blocks db) = [b]"
  shows "restoreOrphanedChain db h ue =
     (let db4 = fst (restore_step db h b ue); ue4 = snd (restore_step db h b ue);
          parentResult =
            filter (\<lambda>p. Suc (DbBlock.block_height p) = DbBlock.block_height b \<and>
                         DbBlock.index_block_hash p = parent_index_block_hash b \<and>
                         \<not> DbBlock.canonical p)
                   (Database.blocks db4)
      in if length parentResult > 1 then (Inl MultipleOrphanedParents, db4)
         else if length parentResult > 0
         then restoreOrphanedChain db4 (DbBlock.index_block_hash (hd parentResult))
                (ue4\<lparr>UpdatedEntities.blocks := UpdatedEntities.blocks ue4 + 1\<rparr>)
         else (Inr ue4, db4))"
  apply (subst restoreOrphanedChain.simps)
  apply (simp add: sql_update_def assms Let_def orphans_after_flip restored_blocks_eq restore_step_def hd_map_ne
              split: prod.splits)
  done


definition block_identity :: "DbBlock \<Rightarrow> DbBlock" where
  "block_identity b = b\<lparr>DbBlock.canonical := False\<rparr>"

lemma blocks_markEntitiesCanonical [simp]:
  "Database.blocks (fst (markEntitiesCanonical db h c ue)) = Database.blocks db"
  by (simp add: markEntitiesCanonical_def Let_def split: prod.splits)

lemma blocks_restore_step [simp]:
  "Database.blocks (fst (restore_step db h b ue)) = restored_blocks h (DbBlock.block_height b) (Database.blocks db)"
  by (simp add: restore_step_def Let_def)

lemma filter_cases:
  obtains "filter P xs = []" | a where "filter P xs = [a]" | "1 < length (filter P xs)"
  by (cases "filter P xs" rule: list.exhaust; cases "tl (filter P xs)") auto

lemma restore_success_single:
  assumes "restoreOrphanedChain db h ue = (Inr ue', db')"
  obtains b where "filter (\<lambda>b. DbBlock.index_block_hash b = h \<and> \<not> DbBlock.canonical b) (Database.blocks db) = [b]"
proof (cases rule: filter_cases[of "\<lambda>b. DbBlock.index_block_hash b = h \<and> \<not> DbBlock.canonical b" "Database.blocks db"])
  case 1
  then show ?thesis using assms restore_not_found[OF 1, of ue] by simp
next
  case (2 a)
  then show ?thesis using that by blast
next
  case 3
  then show ?thesis using assms restore_multiple[OF 3, of ue] by simp
qed

definition kept :: "string \<Rightarrow> nat \<Rightarrow> DbBlock \<Rightarrow> DbBlock \<Rightarrow> bool" where
  "kept h n x y \<longleftrightarrow>
     block_identity y = block_identity x \<and>
     (DbBlock.index_block_hash x = h \<and> DbBlock.block_height x = n \<longrightarrow> DbBlock.canonical y) \<and>
     (DbBlock.canonical x \<and> n < DbBlock.block_height x \<longrightarrow> DbBlock.canonical y)"

lemma block_identity_fields:
  assumes "block_identity y = block_identity x"
  shows "DbBlock.index_block_hash y = DbBlock.index_block_hash x"
    and "DbBlock.block_height y = DbBlock.block_height x"
    and "parent_index_block_hash y = parent_index_block_hash x"
proof -
  have "DbBlock.index_block_hash (block_identity y) = DbBlock.index_block_hash (block_identity x)"
       "DbBlock.block_height (block_identity y) = DbBlock.block_height (block_identity x)"
       "parent_index_block_hash (block_identity y) = parent_index_block_hash (block_identity x)"
    using assms by simp_all
  then show "DbBlock.index_block_hash y = DbBlock.index_block_hash x"
    and "DbBlock.block_height y = DbBlock.block_height x"
    and "parent_index_block_hash y = parent_index_block_hash x"
    by (simp_all add: block_identity_def)
qed

lemma kept_trans:
  assumes "kept h n x y" "kept h' n' y z" "n' < n"
  shows "kept h n x z"
proof -
  have yx: "DbBlock.block_height y = DbBlock.block_height x"
    using assms(1) block_identity_fields(2)[of y x] by (simp add: kept_def)
  have "block_identity z = block_identity x" using assms(1,2) by (simp add: kept_def)
  moreover have "DbBlock.canonical z" if "DbBlock.index_block_hash x = h \<and> DbBlock.block_height x = n"
  proof -
    from that assms(1) have "DbBlock.canonical y" by (simp add: kept_def)
    moreover have "n' < DbBlock.block_height y" using that yx assms(3) by simp
    ultimately show ?thesis using assms(2) by (simp add: kept_def)
  qed
  moreover have "DbBlock.canonical z" if "DbBlock.canonical x \<and> n < DbBlock.block_height x"
  proof -
    from that assms(1) have "DbBlock.canonical y" by (simp add: kept_def)
    moreover have "n' < DbBlock.block_height y" using that yx assms(3) by simp
    ultimately show ?thesis using assms(2) by (simp add: kept_def)
  qed
  ultimately show ?thesis by (simp add: kept_def)
qed

lemma kept_step:
  "list_all2 (kept h n) bs (restored_blocks h n bs)"
  unfolding restored_blocks_def list_all2_map2
  by (rule list.rel_refl_strong) (auto simp: kept_def block_identity_def)

lemma restore_success_blocks:
  assumes "restoreOrphanedChain db h ue = (Inr ue', db')"
      and "filter (\<lambda>b. DbBlock.index_block_hash b = h \<and> \<not> DbBlock.canonical b) (Database.blocks db) = [b]"
  shows "list_all2 (kept h (DbBlock.block_height b)) (Database.blocks db) (Database.blocks db')"
  using assms
proof (induction "DbBlock.block_height b" arbitrary: db h ue b rule: less_induct)
  case less
  define db4 where "db4 = fst (restore_step db h b ue)"
  define ue4 where "ue4 = snd (restore_step db h b ue)"
  define parents where "parents =
     filter (\<lambda>p. Suc (DbBlock.block_height p) = DbBlock.block_height b \<and>
                  DbBlock.index_block_hash p = parent_index_block_hash b \<and>
                  \<not> DbBlock.canonical p) (Database.blocks db4)"
  have unf: "restoreOrphanedChain db h ue =
     (if length parents > 1 then (Inl MultipleOrphanedParents, db4)
      else if length parents > 0
      then restoreOrphanedChain db4 (DbBlock.index_block_hash (hd parents))
             (ue4\<lparr>UpdatedEntities.blocks := UpdatedEntities.blocks ue4 + 1\<rparr>)
      else (Inr ue4, db4))"
    unfolding db4_def ue4_def parents_def
    by (rule restore_unfold[OF less.prems(2), of ue, unfolded Let_def])
  have bs4: "Database.blocks db4 = restored_blocks h (DbBlock.block_height b) (Database.blocks db)"
    by (simp add: db4_def)
  show ?case
  proof (cases "parents = []")
    case True
    with unf less.prems(1) have "db' = db4" by simp
    then show ?thesis using kept_step bs4 by simp
  next
    case False
    then have len: "0 < length parents" by simp
    have nmany: "\<not> 1 < length parents"
    proof
      assume "1 < length parents"
      with unf have "restoreOrphanedChain db h ue = (Inl MultipleOrphanedParents, db4)" by simp
      with less.prems(1) show False by simp
    qed
    define p where "p = hd parents"
    have rec: "restoreOrphanedChain db4 (DbBlock.index_block_hash p)
                 (ue4\<lparr>UpdatedEntities.blocks := UpdatedEntities.blocks ue4 + 1\<rparr>) = (Inr ue', db')"
      using unf less.prems(1) len nmany by (simp add: p_def)
    have p: "p \<in> set (Database.blocks db4)" "Suc (DbBlock.block_height p) = DbBlock.block_height b"
            "\<not> DbBlock.canonical p"
      using hd_in_filter[of _ "Database.blocks db4"] len unfolding parents_def p_def by blast+
    obtain b' where b': "filter (\<lambda>x. DbBlock.index_block_hash x = DbBlock.index_block_hash p \<and> \<not> DbBlock.canonical x)
                           (Database.blocks db4) = [b']"
      using restore_success_single[OF rec] by blast
    have "p = b'" using filter_single_mem[OF b' p(1)] p(3) by blast
    with p have hb': "DbBlock.block_height b' < DbBlock.block_height b" by simp
    have ih: "list_all2 (kept (DbBlock.index_block_hash p) (DbBlock.block_height b'))
                (restored_blocks h (DbBlock.block_height b) (Database.blocks db)) (Database.blocks db')"
      using less.hyps[OF hb' rec b'] bs4 by simp
    show ?thesis
    proof (rule list_all2_trans[OF _ kept_step ih])
      fix x y z
      assume "kept h (DbBlock.block_height b) x y"
        and "kept (DbBlock.index_block_hash p) (DbBlock.block_height b') y z"
      then show "kept h (DbBlock.block_height b) x z"
        using hb' by (rule kept_trans)
    qed
  qed
qed

subsection \<open>The statements of update\<close>

lemma update_statements_result:
  "fst (update_statements db d) = Inr d1 \<Longrightarrow> d1 = stored_batch db d"
  by (auto simp: update_statements_def stored_batch_def Let_def split: prod.splits sum.splits if_splits)

lemma update_success:
  "fst (update db d) = Inr () \<Longrightarrow>
     update db d =
       (Inr (), snd (update_statements db d),
        [Begin, Commit, Emit (blockUpdate (block (stored_batch db d)))] @
        map (\<lambda>entry. Emit (txUpdate (tx entry))) (DataStoreUpdateData.txs (stored_batch db d)))"
  using update_statements_result[of db d]
  by (auto simp: update_def split: prod.splits sum.splits)

lemma emitted_tx_indices_trace:
  "emitted_tx_indices ([Begin, Commit, Emit (blockUpdate b)] @ map (\<lambda>entry. Emit (txUpdate (tx entry))) es)
     = map (\<lambda>entry. DbTx.tx_index (tx entry)) es"
  by (induction es) (simp_all add: emitted_tx_indices_def emitted_def)

lemma stored_batch_tx_index:
  "map (\<lambda>entry. DbTx.tx_index (tx entry)) (DataStoreUpdateData.txs (stored_batch db d))
     = map (\<lambda>entry. DbTx.tx_index (tx entry)) (DataStoreUpdateData.txs d)"
  by (simp add: stored_batch_def store_as_non_canonical_def comp_def)

lemma updateBlock_zero: "fst (updateBlock db b) = 0 \<Longrightarrow> updateBlock db b = (0, db)"
  by (simp add: updateBlock_def split: if_splits)

lemma update_statements_stored:
  "update_statements db d =
     (case handleReorg db (block d) (blockHeight (getChainTipHeight db)) of
        (Inl e, db1) \<Rightarrow> (Inl e, db1)
      | (Inr _, db1) \<Rightarrow>
          (case updateBlock db1 (block (stored_batch db d)) of
             (blocksUpdated, db2) \<Rightarrow>
               if blocksUpdated \<noteq> 0
               then (case forEach update_entry (DataStoreUpdateData.txs (stored_batch db d)) db2 of
                       (Inl e, db3) \<Rightarrow> (Inl e, db3)
                     | (Inr _, db3) \<Rightarrow> (Inr (stored_batch db d), db3))
               else (Inr (stored_batch db d), db2)))"
  by (simp add: update_statements_def stored_batch_def Let_def split: prod.splits sum.splits)

lemma forEach_invariant:
  assumes "\<And>x db. x \<in> set xs \<Longrightarrow> P db \<Longrightarrow> P (snd (f x db))" "P db"
  shows "P (snd (forEach f xs db))"
  using assms
proof (induction xs arbitrary: db)
  case Nil
  then show ?case by simp
next
  case (Cons x xs)
  have px: "P (snd (f x db))" using Cons.prems by simp
  show ?case
  proof (cases "f x db")
    case (Pair r db1)
    with px have p1: "P db1" by simp
    show ?thesis
    proof (cases r)
      case (Inl e)
      with Pair p1 show ?thesis by simp
    next
      case (Inr u)
      have "P (snd (forEach f xs db1))"
        using Cons.IH[of db1] Cons.prems(1) p1 by simp
      with Pair Inr show ?thesis by simp
    qed
  qed
qed

lemma and_then_invariant:
  assumes "\<And>db. P db \<Longrightarrow> P (snd (f db))" "\<And>db. P db \<Longrightarrow> P (snd (g db))" "P db"
  shows "P (snd (and_then f g db))"
proof (cases "f db")
  case (Pair r db1)
  with assms(1)[OF assms(3)] have "P db1" by simp
  with Pair assms(2) show ?thesis by (cases r) (simp_all add: and_then_def)
qed

text \<open>A statement of the insert loop keeps a property that every single insert keeps.\<close>

lemma update_entry_invariant:
  assumes tx: "\<And>db. P db \<Longrightarrow> P (snd (updateTx db (tx entry)))"
    and stx: "\<And>e db. e \<in> set (TxEntry.stxEvents entry) \<Longrightarrow> P db \<Longrightarrow> P (snd (updateStxEvent (tx entry) e db))"
    and ft: "\<And>e db. e \<in> set (TxEntry.ftEvents entry) \<Longrightarrow> P db \<Longrightarrow> P (snd (updateFtEvent (tx entry) e db))"
    and nft: "\<And>e db. e \<in> set (TxEntry.nftEvents entry) \<Longrightarrow> P db \<Longrightarrow> P (snd (updateNftEvent (tx entry) e db))"
    and log: "\<And>e db. e \<in> set (contractLogEvents entry) \<Longrightarrow> P db \<Longrightarrow> P (snd (updateSmartContractEvent (tx entry) e db))"
    and sc: "\<And>e db. e \<in> set (TxEntry.smartContracts entry) \<Longrightarrow> P db \<Longrightarrow> P (snd (updateSmartContract (tx entry) e db))"
    and "P db"
  shows "P (snd (update_entry entry db))"
proof -
  have 1: "P (snd (forEach (updateStxEvent (tx entry)) (TxEntry.stxEvents entry) db))" if "P db" for db
    using stx that by (rule forEach_invariant[where P = P])
  have 2: "P (snd (forEach (updateFtEvent (tx entry)) (TxEntry.ftEvents entry) db))" if "P db" for db
    using ft that by (rule forEach_invariant[where P = P])
  have 3: "P (snd (forEach (updateNftEvent (tx entry)) (TxEntry.nftEvents entry) db))" if "P db" for db
    using nft that by (rule forEach_invariant[where P = P])
  have 4: "P (snd (forEach (updateSmartContractEvent (tx entry)) (contractLogEvents entry) db))" if "P db" for db
    using log that by (rule forEach_invariant[where P = P])
  have 5: "P (snd (forEach (updateSmartContract (tx entry)) (TxEntry.smartContracts entry) db))" if "P db" for db
    using sc that by (rule forEach_invariant[where P = P])
  have 45: "P (snd (and_then (forEach (updateSmartContractEvent (tx entry)) (contractLogEvents entry))
              (forEach (updateSmartContract (tx entry)) (TxEntry.smartContracts entry)) db))" if "P db" for db
    using 4 5 that by (rule and_then_invariant[where P = P])
  have 345: "P (snd (and_then (forEach (updateNftEvent (tx entry)) (TxEntry.nftEvents entry))
             (and_then (forEach (updateSmartContractEvent (tx entry)) (contractLogEvents entry))
              (forEach (updateSmartContract (tx entry)) (TxEntry.smartContracts entry))) db))" if "P db" for db
    using 3 45 that by (rule and_then_invariant[where P = P])
  have 2345: "P (snd (and_then (forEach (updateFtEvent (tx entry)) (TxEntry.ftEvents entry))
            (and_then (forEach (updateNftEvent (tx entry)) (TxEntry.nftEvents entry))
             (and_then (forEach (updateSmartContractEvent (tx entry)) (contractLogEvents entry))
              (forEach (updateSmartContract (tx entry)) (TxEntry.smartContracts entry)))) db))" if "P db" for db
    using 2 345 that by (rule and_then_invariant[where P = P])
  have all: "P (snd (and_then (forEach (updateStxEvent (tx entry)) (TxEntry.stxEvents entry))
           (and_then (forEach (updateFtEvent (tx entry)) (TxEntry.ftEvents entry))
            (and_then (forEach (updateNftEvent (tx entry)) (TxEntry.nftEvents entry))
             (and_then (forEach (updateSmartContractEvent (tx entry)) (contractLogEvents entry))
              (forEach (updateSmartContract (tx entry)) (TxEntry.smartContracts entry))))) db))" if "P db" for db
    using 1 2345 that by (rule and_then_invariant[where P = P])
  show ?thesis
    unfolding update_entry_def by (rule all) (rule tx, rule assms)
qed

subsection \<open>Rows appended with the flag cleared\<close>

lemma extends_with_iff: "extends_with P old new \<longleftrightarrow> (\<exists>ys. new = old @ ys \<and> list_all P ys)"
proof
  assume e: "extends_with P old new"
  then have "new = old @ drop (length old) new"
    by (metis append_take_drop_id extends_with_def)
  with e show "\<exists>ys. new = old @ ys \<and> list_all P ys"
    unfolding extends_with_def by blast
next
  assume "\<exists>ys. new = old @ ys \<and> list_all P ys"
  then show "extends_with P old new" by (auto simp: extends_with_def)
qed

lemma extends_with_refl [simp]: "extends_with P xs xs"
  by (simp add: extends_with_def)

lemma extends_with_snoc: "extends_with P old new \<Longrightarrow> P x \<Longrightarrow> extends_with P old (new @ [x])"
  unfolding extends_with_iff by auto

lemma stored_non_canonical_refl [simp]: "stored_non_canonical db db"
  by (simp add: stored_non_canonical_def)

lemma snc_updateBlock:
  "\<not> DbBlock.canonical b \<Longrightarrow> stored_non_canonical db x \<Longrightarrow> stored_non_canonical db (snd (updateBlock x b))"
  by (simp add: stored_non_canonical_def updateBlock_def extends_with_snoc)

lemma snc_updateTx:
  "\<not> DbTx.canonical t \<Longrightarrow> stored_non_canonical db x \<Longrightarrow> stored_non_canonical db (snd (updateTx x t))"
  by (simp add: stored_non_canonical_def updateTx_def extends_with_snoc)

lemma snc_updateStxEvent:
  "\<not> DbEventBase.canonical e \<Longrightarrow> stored_non_canonical db x \<Longrightarrow> stored_non_canonical db (snd (updateStxEvent t e x))"
  by (simp add: stored_non_canonical_def updateStxEvent_def insert_event_def extends_with_snoc)

lemma snc_updateFtEvent:
  "\<not> DbEventBase.canonical e \<Longrightarrow> stored_non_canonical db x \<Longrightarrow> stored_non_canonical db (snd (updateFtEvent t e x))"
  by (simp add: stored_non_canonical_def updateFtEvent_def insert_event_def extends_with_snoc)

lemma snc_updateNftEvent:
  "\<not> DbEventBase.canonical e \<Longrightarrow> stored_non_canonical db x \<Longrightarrow> stored_non_canonical db (snd (updateNftEvent t e x))"
  by (simp add: stored_non_canonical_def updateNftEvent_def insert_event_def extends_with_snoc)

lemma snc_updateSmartContractEvent:
  "\<not> DbEventBase.canonical e \<Longrightarrow> stored_non_canonical db x \<Longrightarrow>
     stored_non_canonical db (snd (updateSmartContractEvent t e x))"
  by (simp add: stored_non_canonical_def updateSmartContractEvent_def insert_event_def extends_with_snoc)

lemma snc_updateSmartContract:
  "\<not> DbSmartContract.canonical e \<Longrightarrow> stored_non_canonical db x \<Longrightarrow>
     stored_non_canonical db (snd (updateSmartContract t e x))"
  by (simp add: stored_non_canonical_def updateSmartContract_def extends_with_snoc)

lemma snc_update_entry:
  assumes "entry \<in> set (DataStoreUpdateData.txs (store_as_non_canonical d))" "stored_non_canonical db x"
  shows "stored_non_canonical db (snd (update_entry entry x))"
proof -
  from assms(1) obtain e0 where e: "entry = e0\<lparr>
                tx := (tx e0)\<lparr>DbTx.canonical := False\<rparr>,
                TxEntry.stxEvents :=
                  map (\<lambda>e. e\<lparr>DbEventBase.canonical := False\<rparr>) (TxEntry.stxEvents e0),
                TxEntry.ftEvents :=
                  map (\<lambda>e. e\<lparr>DbEventBase.canonical := False\<rparr>) (TxEntry.ftEvents e0),
                TxEntry.nftEvents :=
                  map (\<lambda>e. e\<lparr>DbEventBase.canonical := False\<rparr>) (TxEntry.nftEvents e0),
                contractLogEvents :=
                  map (\<lambda>e. e\<lparr>DbEventBase.canonical := False\<rparr>) (contractLogEvents e0),
                TxEntry.smartContracts :=
                  map (\<lambda>e. e\<lparr>DbSmartContract.canonical := False\<rparr>) (TxEntry.smartContracts e0)\<rparr>"
    by (auto simp: store_as_non_canonical_def)
  show ?thesis
  proof (rule update_entry_invariant[where P = "stored_non_canonical db"])
    show "stored_non_canonical db x" by (rule assms(2))
  qed (auto simp: e intro: snc_updateTx snc_updateStxEvent snc_updateFtEvent snc_updateNftEvent
         snc_updateSmartContractEvent snc_updateSmartContract)
qed

lemma handleReorg_no_restore:
  "\<not> tip < DbBlock.block_height b \<Longrightarrow> snd (handleReorg db b tip) = db"
  by (simp add: handleReorg_def Let_def)

subsection \<open>The chain tip and the parent after an insert\<close>

lemma fold_max_snoc: "fold max (xs @ [a]) (m::nat) = max a (fold max xs m)"
  by simp

lemma tip_append_non_canonical:
  assumes nc: "\<not> DbBlock.canonical bn"
    and le: "DbBlock.block_height bn \<le> blockHeight (getChainTipHeight db)"
    and pos: "0 < DbBlock.block_height bn"
  shows "getChainTipHeight (db\<lparr>Database.blocks := Database.blocks db @ [bn]\<rparr>) = getChainTipHeight db"
proof -
  define bs where "bs = Database.blocks db"
  define M where "M = fold max (map DbBlock.block_height bs) 0"
  define F where "F = filter (\<lambda>b. DbBlock.canonical b \<and> Some (DbBlock.block_height b) = sql_max (map DbBlock.block_height bs)) bs"
  have tip: "getChainTipHeight db =
      (case F of [] \<Rightarrow> \<lparr>blockHeight = 0, blockHash = [], indexBlockHash = []\<rparr>
         | r # _ \<Rightarrow> \<lparr>blockHeight = DbBlock.block_height r, blockHash = DbBlock.block_hash r,
                     indexBlockHash = DbBlock.index_block_hash r\<rparr>)"
    by (simp add: getChainTipHeight_def F_def bs_def)
  have "F \<noteq> []"
  proof
    assume "F = []"
    with tip have "blockHeight (getChainTipHeight db) = 0" by simp
    with le pos show False by simp
  qed
  then obtain r rest where F: "F = r # rest" by (cases F) auto
  then have "r \<in> set F" by simp
  then have r: "r \<in> set bs" "Some (DbBlock.block_height r) = sql_max (map DbBlock.block_height bs)"
    by (simp_all add: F_def)
  then have ne: "bs \<noteq> []" by auto
  with r(2) have rM: "DbBlock.block_height r = M" by (simp add: sql_max_def M_def)
  have "blockHeight (getChainTipHeight db) = M" using tip F rM by simp
  with le have leM: "DbBlock.block_height bn \<le> M" by simp
  have mx: "sql_max (map DbBlock.block_height (bs @ [bn])) = sql_max (map DbBlock.block_height bs)"
    using ne leM by (simp add: sql_max_def M_def max_def)
  have "filter (\<lambda>b. DbBlock.canonical b \<and>
                    Some (DbBlock.block_height b) = sql_max (map DbBlock.block_height (bs @ [bn])))
          (bs @ [bn]) = F"
    unfolding mx using nc by (simp add: F_def)
  then have "getChainTipHeight (db\<lparr>Database.blocks := bs @ [bn]\<rparr>) =
      (case F of [] \<Rightarrow> \<lparr>blockHeight = 0, blockHash = [], indexBlockHash = []\<rparr>
         | r # _ \<Rightarrow> \<lparr>blockHeight = DbBlock.block_height r, blockHash = DbBlock.block_hash r,
                     indexBlockHash = DbBlock.index_block_hash r\<rparr>)"
    by (simp add: getChainTipHeight_def)
  with tip show ?thesis by (simp add: bs_def)
qed

lemma getChainTipHeight_blocks:
  "Database.blocks db1 = Database.blocks db2 \<Longrightarrow> getChainTipHeight db1 = getChainTipHeight db2"
  by (simp add: getChainTipHeight_def)

lemma list_all2_filter:
  assumes "list_all2 R xs ys" "\<And>x y. R x y \<Longrightarrow> P x \<longleftrightarrow> Q y"
  shows "list_all2 R (filter P xs) (filter Q ys)"
  using assms by (induction rule: list_all2_induct) auto

lemma parent_rows_kept:
  assumes "list_all2 (kept h n) (Database.blocks db) (Database.blocks db')"
    and "parent_rows db b = [p]"
  obtains p' where "parent_rows db' b = [p']" "kept h n p p'"
proof -
  have "list_all2 (kept h n) (parent_rows db b) (parent_rows db' b)"
    unfolding parent_rows_def
  proof (rule list_all2_filter[OF assms(1)])
    fix x y assume "kept h n x y"
    then have "block_identity y = block_identity x" by (simp add: kept_def)
    from block_identity_fields[OF this]
    show "(DbBlock.block_height x = DbBlock.block_height b - 1 \<and>
           DbBlock.index_block_hash x = parent_index_block_hash b) \<longleftrightarrow>
          (DbBlock.block_height y = DbBlock.block_height b - 1 \<and>
           DbBlock.index_block_hash y = parent_index_block_hash b)"
      by simp
  qed
  with assms(2) have "list_all2 (kept h n) [p] (parent_rows db' b)" by simp
  then obtain p' where "parent_rows db' b = [p']" "kept h n p p'"
    by (auto simp: list_all2_Cons1)
  then show ?thesis by (rule that)
qed

lemma parent_rows_append:
  assumes "Database.blocks db' = Database.blocks db @ [bn]" "DbBlock.block_height bn = DbBlock.block_height b"
    "1 < DbBlock.block_height b"
  shows "parent_rows db' b = parent_rows db b"
  using assms by (auto simp: parent_rows_def)

lemma parent_rows_blocks:
  "Database.blocks db' = Database.blocks db \<Longrightarrow> parent_rows db' b = parent_rows db b"
  by (simp add: parent_rows_def)

lemma handleReorg_branches:
  assumes "1 < DbBlock.block_height b"
  shows "(parent_rows db b = [] \<longrightarrow>
            handleReorg db b tip =
              (Inl (ParentMissing (DbBlock.block_height b - 1) (parent_index_block_hash b)), db))
       \<and> (1 < length (parent_rows db b) \<longrightarrow>
            handleReorg db b tip =
              (Inl (MultipleParents (DbBlock.block_height b - 1) (parent_index_block_hash b)), db))
       \<and> (\<forall>p. parent_rows db b = [p] \<and> DbBlock.canonical p \<longrightarrow>
            handleReorg db b tip = (Inr no_updates, db))
       \<and> (\<forall>p. parent_rows db b = [p] \<and> \<not> DbBlock.canonical p \<and> tip < DbBlock.block_height b \<longrightarrow>
            handleReorg db b tip =
              restoreOrphanedChain db (DbBlock.index_block_hash p)
                (no_updates\<lparr>UpdatedEntities.blocks := 1\<rparr>))
       \<and> (\<forall>p. parent_rows db b = [p] \<and> \<not> DbBlock.canonical p \<and> \<not> tip < DbBlock.block_height b \<longrightarrow>
            handleReorg db b tip = (Inr no_updates, db))"
  using assms
  by (auto simp: handleReorg_def parent_rows_def Let_def no_updates_def)

text \<open>The outcomes of a successful handleReorg.\<close>

lemma handleReorg_success:
  assumes "handleReorg db b tip = (Inr ue, dbr)"
  obtains (genesis) "\<not> 1 < DbBlock.block_height b" "dbr = db"
    | (kept) p where "1 < DbBlock.block_height b" "parent_rows db b = [p]"
        "DbBlock.canonical p \<or> \<not> tip < DbBlock.block_height b" "dbr = db"
    | (restored) p where "1 < DbBlock.block_height b" "parent_rows db b = [p]"
        "\<not> DbBlock.canonical p" "tip < DbBlock.block_height b"
        "restoreOrphanedChain db (DbBlock.index_block_hash p) (no_updates\<lparr>UpdatedEntities.blocks := 1\<rparr>) = (Inr ue, dbr)"
proof (cases "1 < DbBlock.block_height b")
  case False
  with assms have "dbr = db" by (simp add: handleReorg_def Let_def)
  with False show ?thesis by (rule genesis)
next
  case True
  note c = handleReorg_branches[OF True, of db tip]
  show ?thesis
  proof (cases rule: filter_cases[of "\<lambda>r. DbBlock.block_height r = DbBlock.block_height b - 1 \<and>
                  DbBlock.index_block_hash r = parent_index_block_hash b" "Database.blocks db"])
    case 1
    then have "parent_rows db b = []" by (simp add: parent_rows_def)
    with c assms show ?thesis by simp
  next
    case (2 p)
    then have pr: "parent_rows db b = [p]" by (simp add: parent_rows_def)
    show ?thesis
    proof (cases "DbBlock.canonical p \<or> \<not> tip < DbBlock.block_height b")
      case True
      with c pr have "handleReorg db b tip = (Inr no_updates, db)" by blast
      with assms have "dbr = db" by simp
      with \<open>1 < DbBlock.block_height b\<close> pr True show ?thesis by (rule kept)
    next
      case False
      with c pr have "handleReorg db b tip =
              restoreOrphanedChain db (DbBlock.index_block_hash p)
                (no_updates\<lparr>UpdatedEntities.blocks := 1\<rparr>)" by blast
      with assms False \<open>1 < DbBlock.block_height b\<close> pr show ?thesis by (intro restored[of p]) auto
    qed
  next
    case 3
    then have "1 < length (parent_rows db b)" by (simp add: parent_rows_def)
    with c assms show ?thesis by simp
  qed
qed

lemma blocks_update_entry:
  "Database.blocks x = B \<Longrightarrow> Database.blocks (snd (update_entry entry x)) = B"
  by (rule update_entry_invariant[where P = "\<lambda>x. Database.blocks x = B"])
     (simp_all add: updateTx_def updateStxEvent_def updateFtEvent_def updateNftEvent_def
        updateSmartContractEvent_def updateSmartContract_def split: sum.splits)

lemma blocks_forEach_update_entry:
  "Database.blocks (snd (forEach update_entry es x)) = Database.blocks x"
  by (rule forEach_invariant[where P = "\<lambda>y. Database.blocks y = Database.blocks x"])
     (simp_all add: blocks_update_entry)

lemma stored_batch_block:
  "DbBlock.index_block_hash (block (stored_batch db d)) = DbBlock.index_block_hash (block d)"
  "DbBlock.block_height (block (stored_batch db d)) = DbBlock.block_height (block d)"
  by (simp_all add: stored_batch_def store_as_non_canonical_def)

lemma handleReorg_genesis:
  "\<not> 1 < DbBlock.block_height b \<Longrightarrow> handleReorg db b tip = (Inr no_updates, db)"
  by (simp add: handleReorg_def Let_def)

lemma update_statements_success:
  assumes "update_statements db d = (Inr d1, db')"
  obtains ue dbr where
    "handleReorg db (block d) (blockHeight (getChainTipHeight db)) = (Inr ue, dbr)"
    "Database.blocks db' = Database.blocks (snd (updateBlock dbr (block (stored_batch db d))))"
proof -
  let ?tip = "blockHeight (getChainTipHeight db)"
  obtain r dbr where h: "handleReorg db (block d) ?tip = (r, dbr)"
    by (cases "handleReorg db (block d) ?tip") auto
  obtain n db2 where u: "updateBlock dbr (block (stored_batch db d)) = (n, db2)"
    by (cases "updateBlock dbr (block (stored_batch db d))") auto
  from assms h obtain ue where r: "r = Inr ue"
    by (cases r) (simp_all add: update_statements_stored)
  have "Database.blocks db' = Database.blocks db2"
  proof (cases "n = 0")
    case True
    with assms h u r show ?thesis by (simp add: update_statements_stored)
  next
    case False
    with assms h u r have "db' = snd (forEach update_entry (DataStoreUpdateData.txs (stored_batch db d)) db2)"
      by (auto simp: update_statements_stored split: prod.splits sum.splits)
    then show ?thesis by (simp add: blocks_forEach_update_entry)
  qed
  with h r u show ?thesis by (intro that[of ue dbr]) simp_all
qed

lemma parent_rows_after_insert:
  assumes "1 < DbBlock.block_height b" "DbBlock.block_height bn = DbBlock.block_height b"
  shows "parent_rows (snd (updateBlock dbr bn)) b = parent_rows dbr b"
  using assms by (auto simp: updateBlock_def parent_rows_def)

lemma hash_after_insert:
  "DbBlock.index_block_hash bn \<in> set (map DbBlock.index_block_hash (Database.blocks (snd (updateBlock dbr bn))))"
  by (simp add: updateBlock_def)

lemma tip_after_insert:
  assumes "\<not> DbBlock.canonical bn" "DbBlock.block_height bn \<le> blockHeight (getChainTipHeight db)"
    "0 < DbBlock.block_height bn"
  shows "getChainTipHeight (snd (updateBlock db bn)) = getChainTipHeight db"
  using tip_append_non_canonical[OF assms] by (simp add: updateBlock_def)

lemma parent_in_blocks: "parent_rows db b = [p] \<Longrightarrow> p \<in> set (Database.blocks db)"
proof -
  assume "parent_rows db b = [p]"
  then have "p \<in> set (parent_rows db b)" by simp
  then show ?thesis by (simp add: parent_rows_def)
qed

lemma second_handleReorg:
  assumes h: "handleReorg db (block d) (blockHeight (getChainTipHeight db)) = (Inr ue, dbr)"
    and bs: "Database.blocks db' = Database.blocks (snd (updateBlock dbr (block (stored_batch db d))))"
  shows "handleReorg db' (block d) (blockHeight (getChainTipHeight db')) = (Inr no_updates, db')"
proof -
  define b where "b = block d"
  define bn where "bn = block (stored_batch db d)"
  define tip where "tip = blockHeight (getChainTipHeight db)"
  define tip' where "tip' = blockHeight (getChainTipHeight db')"
  have hb: "DbBlock.block_height bn = DbBlock.block_height b"
    by (simp add: bn_def b_def stored_batch_block)
  have pr': "parent_rows db' b = parent_rows dbr b" if "1 < DbBlock.block_height b"
    using parent_rows_after_insert[OF that hb, of dbr] parent_rows_blocks[OF bs, of b]
    by (simp add: bn_def)
  from h have h': "handleReorg db b tip = (Inr ue, dbr)" by (simp add: b_def tip_def)
  have "handleReorg db' b tip' = (Inr no_updates, db')"
    using h'
  proof (cases rule: handleReorg_success)
    case genesis
    then show ?thesis by (simp add: handleReorg_genesis)
  next
    case (kept p)
    then have p': "parent_rows db' b = [p]" using pr' by simp
    show ?thesis
    proof (cases "DbBlock.canonical p")
      case True
      with p' handleReorg_branches[OF kept(1), of db' tip'] show ?thesis by blast
    next
      case False
      with kept(3) have le: "DbBlock.block_height b \<le> tip" by simp
      then have "stored_batch db d = store_as_non_canonical d"
        by (simp add: stored_batch_def b_def tip_def)
      then have nc: "\<not> DbBlock.canonical bn" by (simp add: bn_def store_as_non_canonical_def)
      have "getChainTipHeight (snd (updateBlock db bn)) = getChainTipHeight db"
        using nc le kept(1) hb by (intro tip_after_insert) (simp_all add: tip_def)
      moreover have "getChainTipHeight db' = getChainTipHeight (snd (updateBlock db bn))"
        using bs kept(4) by (intro getChainTipHeight_blocks) (simp add: bn_def)
      ultimately have "tip' = tip" by (simp add: tip'_def tip_def)
      with le have "\<not> tip' < DbBlock.block_height b" by simp
      with False p' handleReorg_branches[OF kept(1), of db' tip'] show ?thesis by blast
    qed
  next
    case (restored p)
    obtain b0 where b0: "filter (\<lambda>x. DbBlock.index_block_hash x = DbBlock.index_block_hash p \<and> \<not> DbBlock.canonical x)
                           (Database.blocks db) = [b0]"
      using restore_success_single[OF restored(5)] by blast
    have "p = b0" using filter_single_mem[OF b0 parent_in_blocks[OF restored(2)]] restored(3) by blast
    with restore_success_blocks[OF restored(5) b0]
    have "list_all2 (kept (DbBlock.index_block_hash p) (DbBlock.block_height p))
            (Database.blocks db) (Database.blocks dbr)" by simp
    from parent_rows_kept[OF this restored(2)]
    obtain p' where p': "parent_rows dbr b = [p']"
      "kept (DbBlock.index_block_hash p) (DbBlock.block_height p) p p'" by blast
    from p'(2) have "DbBlock.canonical p'" by (simp add: kept_def)
    moreover have "parent_rows db' b = [p']" using pr' restored(1) p'(1) by simp
    ultimately show ?thesis using handleReorg_branches[OF restored(1), of db' tip'] by blast
  qed
  then show ?thesis by (simp add: b_def tip'_def)
qed

lemma handleReorg_block_fields:
  "DbBlock.block_height b2 = DbBlock.block_height b \<Longrightarrow>
   parent_index_block_hash b2 = parent_index_block_hash b \<Longrightarrow>
   handleReorg db b2 tip = handleReorg db b tip"
  by (simp add: handleReorg_def Let_def)

lemma stored_batch_parent:
  "parent_index_block_hash (block (stored_batch db d)) = parent_index_block_hash (block d)"
  by (simp add: stored_batch_def store_as_non_canonical_def)

lemma store_as_non_canonical_idem:
  "store_as_non_canonical (store_as_non_canonical d) = store_as_non_canonical d"
  by (simp add: store_as_non_canonical_def comp_def)

lemma stored_batch_idem: "stored_batch db (stored_batch db d) = stored_batch db d"
  by (simp add: stored_batch_def store_as_non_canonical_idem)

lemma update_statements_stored_batch:
  "update_statements db (stored_batch db d) = update_statements db d"
proof -
  have h: "handleReorg db (block (stored_batch db d)) (blockHeight (getChainTipHeight db))
        = handleReorg db (block d) (blockHeight (getChainTipHeight db))"
    by (rule handleReorg_block_fields) (simp_all add: stored_batch_block stored_batch_parent)
  show ?thesis
    unfolding update_statements_stored[of db "stored_batch db d"] update_statements_stored[of db d]
      stored_batch_idem h
    by (rule refl)
qed

lemma update_stored_batch: "update db (stored_batch db d) = update db d"
  by (simp add: update_def update_statements_stored_batch)

lemma update_statements_again:
  assumes "update_statements db d = (Inr d1, db')"
    and same: "DbBlock.index_block_hash (block d2) = DbBlock.index_block_hash (block d)"
      "DbBlock.block_height (block d2) = DbBlock.block_height (block d)"
      "parent_index_block_hash (block d2) = parent_index_block_hash (block d)"
  shows "handleReorg db' (block d2) (blockHeight (getChainTipHeight db')) = (Inr no_updates, db')"
    and "updateBlock db' (block (stored_batch db' d2)) = (0, db')"
    and "update_statements db' d2 = (Inr (stored_batch db' d2), db')"
proof -
  from update_statements_success[OF assms(1)] obtain ue dbr where
    h: "handleReorg db (block d) (blockHeight (getChainTipHeight db)) = (Inr ue, dbr)" and
    bs: "Database.blocks db' = Database.blocks (snd (updateBlock dbr (block (stored_batch db d))))"
    by blast
  have "handleReorg db' (block d) (blockHeight (getChainTipHeight db')) = (Inr no_updates, db')"
    by (rule second_handleReorg[OF h bs])
  then show h2: "handleReorg db' (block d2) (blockHeight (getChainTipHeight db')) = (Inr no_updates, db')"
    using handleReorg_block_fields[OF same(2,3)] by simp
  have "DbBlock.index_block_hash (block (stored_batch db' d2))
          \<in> set (map DbBlock.index_block_hash (Database.blocks db'))"
    using hash_after_insert[of "block (stored_batch db d)" dbr] bs
    by (simp add: stored_batch_block same(1))
  then show u2: "updateBlock db' (block (stored_batch db' d2)) = (0, db')"
    by (simp add: updateBlock_def)
  show "update_statements db' d2 = (Inr (stored_batch db' d2), db')"
    by (simp add: update_statements_stored h2 u2)
qed

subsection \<open>The call relation of restoreOrphanedChain\<close>

lemma restore_rel_caller:
  assumes "restoreOrphanedChain_rel (db', h', ue') (db, h, ue)"
  obtains b p where
    "filter (\<lambda>x. DbBlock.index_block_hash x = h \<and> \<not> DbBlock.canonical x) (Database.blocks db) = [b]"
    "p \<in> set (Database.blocks db')" "DbBlock.index_block_hash p = h'" "\<not> DbBlock.canonical p"
    "Suc (DbBlock.block_height p) = DbBlock.block_height b"
  using assms
proof (cases rule: restoreOrphanedChain_rel.cases)
  case (1 x xa y xb xc xd xe ya xf xg xh yb xi yc xk)
  define F where "F = filter (\<lambda>x. DbBlock.index_block_hash x = h \<and> \<not> DbBlock.canonical x) (Database.blocks db)"
  have y: "y = map (\<lambda>b. b\<lparr>DbBlock.canonical := True\<rparr>) F"
    using 1(3,4) by (simp add: sql_update_def F_def)
  with 1(6,7) obtain b where b: "F = [b]"
    by (cases F rule: list.exhaust; cases "tl F") auto
  with y 1(8) have xc: "DbBlock.block_height xc = DbBlock.block_height b" by simp
  have len: "0 < length xk" by (rule 1)
  have p: "hd xk \<in> set (Database.blocks db') \<and> Suc (DbBlock.block_height (hd xk)) = DbBlock.block_height xc \<and>
           \<not> DbBlock.canonical (hd xk)"
    using hd_in_filter[of _ "Database.blocks db'"] len unfolding 1 by blast
  show ?thesis
    using b p xc 1(1) unfolding F_def by (intro that[of b "hd xk"]) simp_all
qed


lemma restore_rel_intro:
  assumes b: "filter (\<lambda>x. DbBlock.index_block_hash x = h \<and> \<not> DbBlock.canonical x) (Database.blocks db) = [b]"
    and "db4 = fst (restore_step db h b ue)" "ue4 = snd (restore_step db h b ue)"
    and "filter (\<lambda>p. Suc (DbBlock.block_height p) = DbBlock.block_height b \<and>
                         DbBlock.index_block_hash p = parent_index_block_hash b \<and>
                         \<not> DbBlock.canonical p) (Database.blocks db4) = [p]"
  shows "restoreOrphanedChain_rel
           (db4, DbBlock.index_block_hash p, ue4\<lparr>UpdatedEntities.blocks := UpdatedEntities.blocks ue4 + 1\<rparr>)
           (db, h, ue)"
proof -
  define x where "x = sql_update (\<lambda>b. DbBlock.index_block_hash b = h \<and> DbBlock.canonical b = False)
                       (\<lambda>b. b\<lparr>DbBlock.canonical := True\<rparr>) (Database.blocks db)"
  define xb where "xb = db\<lparr>Database.blocks := fst x\<rparr>"
  define xc where "xc = hd (snd x)"
  define xd where "xd = sql_update (\<lambda>b. DbBlock.block_height b = DbBlock.block_height xc \<and>
                                  DbBlock.index_block_hash b \<noteq> h \<and> DbBlock.canonical b = True)
                            (\<lambda>b. b\<lparr>DbBlock.canonical := False\<rparr>) (Database.blocks xb)"
  define xf where "xf = xb\<lparr>Database.blocks := fst xd\<rparr>"
  define xg where "xg = (if 0 < length (snd xd)
                  then markEntitiesCanonical xf (DbBlock.index_block_hash (hd (snd xd))) False ue
                  else (xf, ue))"
  define xi where "xi = markEntitiesCanonical (fst xg) h True (snd xg)"
  define xk where "xk = filter (\<lambda>b. Suc (DbBlock.block_height b) = DbBlock.block_height xc \<and>
                              DbBlock.index_block_hash b = parent_index_block_hash xc \<and>
                              DbBlock.canonical b = False) (Database.blocks (fst xi))"
  have sx: "snd x = [b\<lparr>DbBlock.canonical := True\<rparr>]" using b by (simp add: x_def sql_update_def)
  have xc: "xc = b\<lparr>DbBlock.canonical := True\<rparr>" by (simp add: xc_def sx)
  have xi: "xi = restore_step db h b ue"
    unfolding xi_def xg_def xf_def xd_def xb_def
    by (simp add: x_def xc sql_update_def restore_step_def Let_def orphans_after_flip restored_blocks_eq hd_map_ne)
  have xk: "xk = [p]" using assms(4) by (simp add: xk_def xi xc assms(2))
  have "restoreOrphanedChain_rel
           (fst xi, DbBlock.index_block_hash (hd xk),
            (snd xi)\<lparr>UpdatedEntities.blocks := UpdatedEntities.blocks (snd xi) + 1\<rparr>)
           (db, h, ue)"
  proof (rule restoreOrphanedChain_rel.intros[where x = x and xa = "fst x" and y = "snd x" and xb = xb
          and xc = xc and xd = xd and xe = "fst xd" and ya = "snd xd" and xf = xf and xg = xg
          and xh = "fst xg" and yb = "snd xg" and xi = xi and xj = "fst xi" and yc = "snd xi" and xk = xk,
          OF x_def prod.collapse xb_def _ _ xc_def xd_def prod.collapse xf_def xg_def prod.collapse
             xi_def prod.collapse xk_def])
    show "length (snd x) \<noteq> 0" "\<not> 1 < length (snd x)" by (simp_all add: sx)
    show "\<not> 1 < length xk" "0 < length xk" by (simp_all add: xk)
  qed
  then show ?thesis by (simp add: xi xk assms(2,3))
qed


lemma restore_rel_decreases:
  assumes "restoreOrphanedChain_rel y x"
  shows "orphan_height (fst y) (fst (snd y)) < orphan_height (fst x) (fst (snd x))"
proof -
  obtain db' h' ue' db h ue where yx: "y = (db', h', ue')" "x = (db, h, ue)"
    by (cases y, cases x) auto
  from assms obtain b p where
    b: "filter (\<lambda>x. DbBlock.index_block_hash x = h \<and> \<not> DbBlock.canonical x) (Database.blocks db) = [b]"
    and p: "p \<in> set (Database.blocks db')" "DbBlock.index_block_hash p = h'" "\<not> DbBlock.canonical p"
      "Suc (DbBlock.block_height p) = DbBlock.block_height b"
    unfolding yx by (rule restore_rel_caller)
  have "orphan_height db' h' \<le> Suc (DbBlock.block_height p)"
    using orphan_height_le[OF p(1)] p(2,3) by simp
  moreover have "orphan_height db h = Suc (DbBlock.block_height b)"
    using b by (simp add: orphan_height_def)
  ultimately show ?thesis using p(4) by (simp add: yx)
qed

lemma restore_depth:
  assumes "(restoreOrphanedChain_rel ^^ n) y (db, h, ue)"
    and "filter (\<lambda>x. DbBlock.index_block_hash x = h \<and> \<not> DbBlock.canonical x) (Database.blocks db) = [b]"
  shows "n \<le> DbBlock.block_height b"
  using assms
proof (induction n arbitrary: db h ue b)
  case 0
  then show ?case by simp
next
  case (Suc k)
  from Suc.prems(1) obtain z where kz: "(restoreOrphanedChain_rel ^^ k) y z"
    and zx: "restoreOrphanedChain_rel z (db, h, ue)"
    by (auto elim: relpowp_Suc_E)
  obtain db1 h1 ue1 where z: "z = (db1, h1, ue1)" by (cases z) auto
  from zx[unfolded z] obtain b0 p where
    b0: "filter (\<lambda>x. DbBlock.index_block_hash x = h \<and> \<not> DbBlock.canonical x) (Database.blocks db) = [b0]"
    and p: "p \<in> set (Database.blocks db1)" "DbBlock.index_block_hash p = h1" "\<not> DbBlock.canonical p"
      "Suc (DbBlock.block_height p) = DbBlock.block_height b0"
    by (rule restore_rel_caller)
  from b0 Suc.prems(2) have "b0 = b" by simp
  with p have hp: "Suc (DbBlock.block_height p) = DbBlock.block_height b" by simp
  show ?case
  proof (cases k)
    case 0
    with hp show ?thesis by simp
  next
    case (Suc k')
    with kz obtain w where wr: "restoreOrphanedChain_rel w z"
      by (auto elim: relpowp_Suc_E)
    obtain dbw hw uew where w: "w = (dbw, hw, uew)" by (cases w) auto
    from wr have wz: "restoreOrphanedChain_rel (dbw, hw, uew) (db1, h1, ue1)"
      unfolding z w .
    from wz obtain b1 where
      b1: "filter (\<lambda>x. DbBlock.index_block_hash x = h1 \<and> \<not> DbBlock.canonical x) (Database.blocks db1) = [b1]"
      by (rule restore_rel_caller)
    have "p = b1" using filter_single_mem[OF b1 p(1)] p(2,3) by blast
    have "k \<le> DbBlock.block_height b1"
      using Suc.IH[OF kz[unfolded z] b1] .
    with \<open>p = b1\<close> hp show ?thesis by simp
  qed
qed

subsection \<open>restoreOrphanedChain and its description\<close>

lemma fst_markEntitiesCanonical:
  "fst (markEntitiesCanonical db g c ue) = mark_entities g c db"
proof -
  have t: "map (\<lambda>r. if DbTx.index_block_hash r = g \<and> DbTx.canonical r \<noteq> c then r\<lparr>DbTx.canonical := c\<rparr> else r) xs
         = map (\<lambda>r. if DbTx.index_block_hash r = g then r\<lparr>DbTx.canonical := c\<rparr> else r) xs" for xs
    by (rule map_cong) auto
  have e: "map (\<lambda>r. if row_index_block_hash r = g \<and> DbEventBase.canonical (row_data r) \<noteq> c
                    then r\<lparr>row_data := (row_data r)\<lparr>DbEventBase.canonical := c\<rparr>\<rparr> else r) xs
         = map (\<lambda>r. if row_index_block_hash r = g
                    then r\<lparr>row_data := (row_data r)\<lparr>DbEventBase.canonical := c\<rparr>\<rparr> else r) xs"
    for xs :: "('a DbEventBase_scheme) Row list"
    by (rule map_cong) auto
  have k: "map (\<lambda>r. if row_index_block_hash r = g \<and> DbSmartContract.canonical (row_data r) \<noteq> c
                    then r\<lparr>row_data := (row_data r)\<lparr>DbSmartContract.canonical := c\<rparr>\<rparr> else r) xs
         = map (\<lambda>r. if row_index_block_hash r = g
                    then r\<lparr>row_data := (row_data r)\<lparr>DbSmartContract.canonical := c\<rparr>\<rparr> else r) xs" for xs
    by (rule map_cong) auto
  show ?thesis
    by (simp add: markEntitiesCanonical_def mark_entities_def mark_txs_def mark_events_def
          mark_contracts_def sql_update_def t e k)
qed

lemma blocks_mark_entities [simp]: "Database.blocks (mark_entities g c db) = Database.blocks db"
  by (simp add: mark_entities_def)

lemma distinct_map_filter_le1:
  "distinct (map f xs) \<Longrightarrow> length (filter (\<lambda>x. f x = k \<and> Q x) xs) \<le> 1"
proof (induction xs)
  case Nil
  then show ?case by simp
next
  case (Cons a xs)
  show ?case
  proof (cases "f a = k \<and> Q a")
    case True
    with Cons.prems have "k \<notin> f ` set xs" by auto
    then have "filter (\<lambda>x. f x = k \<and> Q x) xs = []" by (auto simp: filter_empty_conv)
    with True show ?thesis by simp
  next
    case False
    with Cons show ?thesis by auto
  qed
qed

lemma others_le1:
  assumes "distinct (map DbBlock.block_height (filter DbBlock.canonical bs))"
  shows "length (filter (\<lambda>x. DbBlock.block_height x = n \<and> DbBlock.index_block_hash x \<noteq> h \<and> DbBlock.canonical x) bs) \<le> 1"
proof -
  have "filter (\<lambda>x. DbBlock.block_height x = n \<and> DbBlock.index_block_hash x \<noteq> h \<and> DbBlock.canonical x) bs
        = filter (\<lambda>x. DbBlock.block_height x = n \<and> DbBlock.index_block_hash x \<noteq> h) (filter DbBlock.canonical bs)"
    by (simp add: conj_commute conj_left_commute cong: filter_cong)
  with distinct_map_filter_le1[OF assms, of n "\<lambda>x. DbBlock.index_block_hash x \<noteq> h"]
  show ?thesis by simp
qed

lemma restored_blocks_spec:
  "restored_blocks h n bs =
     map (\<lambda>x. if DbBlock.index_block_hash x = h then x\<lparr>DbBlock.canonical := True\<rparr>
               else if x \<in> set (filter (\<lambda>x. DbBlock.block_height x = n \<and>
                                     DbBlock.index_block_hash x \<noteq> h \<and> DbBlock.canonical x) bs)
               then x\<lparr>DbBlock.canonical := False\<rparr>
               else x) bs"
  unfolding restored_blocks_def by (rule map_cong) auto

lemma restore_step_spec:
  assumes "distinct (map DbBlock.block_height (filter DbBlock.canonical (Database.blocks db)))"
  shows "fst (restore_step db h b ue) = restore_one_spec db h b"
proof -
  define others where "others = filter (\<lambda>x. DbBlock.block_height x = DbBlock.block_height b \<and>
                                     DbBlock.index_block_hash x \<noteq> h \<and> DbBlock.canonical x)
                               (Database.blocks db)"
  have "length others \<le> 1" unfolding others_def by (rule others_le1[OF assms])
  then consider "others = []" | q where "others = [q]"
    by (cases others rule: list.exhaust; cases "tl others") auto
  then show ?thesis
  proof cases
    case 1
    then show ?thesis
      unfolding restore_step_def restore_one_spec_def Let_def others_def[symmetric] restored_blocks_spec
      by (simp add: fst_markEntitiesCanonical)
  next
    case 2
    then show ?thesis
      unfolding restore_step_def restore_one_spec_def Let_def others_def[symmetric] restored_blocks_spec
      by (simp add: fst_markEntitiesCanonical)
  qed
qed


lemma hashes_restored_blocks [simp]:
  "map DbBlock.index_block_hash (restored_blocks h n bs) = map DbBlock.index_block_hash bs"
  by (simp add: restored_blocks_def comp_def)

lemma restored_canonical_cases:
  assumes dh: "distinct (map DbBlock.index_block_hash bs)"
    and ob: "filter (\<lambda>x. DbBlock.index_block_hash x = h \<and> \<not> DbBlock.canonical x) bs = [b]"
    and y: "y \<in> set (restored_blocks h (DbBlock.block_height b) bs)" "DbBlock.canonical y"
  shows "y = b\<lparr>DbBlock.canonical := True\<rparr> \<or>
         (y \<in> set bs \<and> DbBlock.canonical y \<and> DbBlock.block_height y \<noteq> DbBlock.block_height b)"
proof -
  have "b \<in> set (filter (\<lambda>x. DbBlock.index_block_hash x = h \<and> \<not> DbBlock.canonical x) bs)"
    by (simp add: ob)
  then have b: "b \<in> set bs" "DbBlock.index_block_hash b = h" "\<not> DbBlock.canonical b" by simp_all
  from y(1) obtain x where x: "x \<in> set bs"
    and yx: "y = (if DbBlock.index_block_hash x = h \<and> \<not> DbBlock.canonical x
               then x\<lparr>DbBlock.canonical := True\<rparr>
               else if DbBlock.block_height x = DbBlock.block_height b \<and> DbBlock.index_block_hash x \<noteq> h \<and> DbBlock.canonical x
               then x\<lparr>DbBlock.canonical := False\<rparr>
               else x)"
    by (auto simp: restored_blocks_def)
  show ?thesis
  proof (cases "DbBlock.index_block_hash x = h \<and> \<not> DbBlock.canonical x")
    case True
    with x have "x = b" using filter_single_mem[OF ob x] by blast
    with True yx show ?thesis by simp
  next
    case False
    note nf = this
    show ?thesis
    proof (cases "DbBlock.block_height x = DbBlock.block_height b \<and> DbBlock.index_block_hash x \<noteq> h \<and> DbBlock.canonical x")
      case True
      with nf yx y(2) show ?thesis by simp
    next
      case False
      with nf yx have "y = x" by simp
      with y(2) nf have cx: "DbBlock.canonical x" and hx: "DbBlock.index_block_hash x \<noteq> h"
      proof -
        show "DbBlock.canonical x" using \<open>y = x\<close> y(2) by simp
        show "DbBlock.index_block_hash x \<noteq> h"
        proof
          assume "DbBlock.index_block_hash x = h"
          with b(2) have "DbBlock.index_block_hash x = DbBlock.index_block_hash b" by simp
          moreover have "inj_on DbBlock.index_block_hash (set bs)" using dh by (simp add: distinct_map)
          ultimately have "x = b" using x b(1) by (auto dest: inj_onD)
          with \<open>DbBlock.canonical x\<close> b(3) show False by simp
        qed
      qed
      with False have "DbBlock.block_height x \<noteq> DbBlock.block_height b" by simp
      with \<open>y = x\<close> x cx show ?thesis by simp
    qed
  qed
qed

lemma canonical_heights_restored:
  assumes dh: "distinct (map DbBlock.index_block_hash bs)"
    and i1: "distinct (map DbBlock.block_height (filter DbBlock.canonical bs))"
    and ob: "filter (\<lambda>x. DbBlock.index_block_hash x = h \<and> \<not> DbBlock.canonical x) bs = [b]"
  shows "distinct (map DbBlock.block_height
           (filter DbBlock.canonical (restored_blocks h (DbBlock.block_height b) bs)))"
proof -
  let ?bs' = "restored_blocks h (DbBlock.block_height b) bs"
  have "distinct (map DbBlock.index_block_hash ?bs') =
          (distinct ?bs' \<and> inj_on DbBlock.index_block_hash (set ?bs'))"
    by (rule distinct_map)
  with dh have "distinct ?bs'" by simp
  then have d: "distinct (filter DbBlock.canonical ?bs')" by simp
  have inj: "inj_on DbBlock.block_height (set (filter DbBlock.canonical bs))"
    using i1 by (simp add: distinct_map)
  have "inj_on DbBlock.block_height (set (filter DbBlock.canonical ?bs'))"
  proof (rule inj_onI)
    fix y1 y2
    assume "y1 \<in> set (filter DbBlock.canonical ?bs')" "y2 \<in> set (filter DbBlock.canonical ?bs')"
      and eq: "DbBlock.block_height y1 = DbBlock.block_height y2"
    then have m: "y1 \<in> set ?bs'" "DbBlock.canonical y1" "y2 \<in> set ?bs'" "DbBlock.canonical y2"
      by simp_all
    from restored_canonical_cases[OF dh ob m(1,2)] restored_canonical_cases[OF dh ob m(3,4)]
    consider "y1 = b\<lparr>DbBlock.canonical := True\<rparr>" "y2 = b\<lparr>DbBlock.canonical := True\<rparr>"
      | "y1 = b\<lparr>DbBlock.canonical := True\<rparr>" "DbBlock.block_height y2 \<noteq> DbBlock.block_height b"
      | "y2 = b\<lparr>DbBlock.canonical := True\<rparr>" "DbBlock.block_height y1 \<noteq> DbBlock.block_height b"
      | "y1 \<in> set bs" "DbBlock.canonical y1" "y2 \<in> set bs" "DbBlock.canonical y2"
      by blast
    then show "y1 = y2"
    proof cases
      case 1
      then show ?thesis by simp
    next
      case 2
      with eq show ?thesis by simp
    next
      case 3
      with eq show ?thesis by simp
    next
      case 4
      then have "y1 \<in> set (filter DbBlock.canonical bs)" "y2 \<in> set (filter DbBlock.canonical bs)"
        by simp_all
      with inj eq show ?thesis by (rule inj_onD)
    qed
  qed
  with d show ?thesis by (simp add: distinct_map)
qed

lemma parents_le1:
  assumes "distinct (map DbBlock.index_block_hash bs)"
  shows "length (filter (\<lambda>p. Suc (DbBlock.block_height p) = n \<and> DbBlock.index_block_hash p = k \<and>
                              \<not> DbBlock.canonical p) bs) \<le> 1"
proof -
  have "filter (\<lambda>p. Suc (DbBlock.block_height p) = n \<and> DbBlock.index_block_hash p = k \<and> \<not> DbBlock.canonical p) bs
      = filter (\<lambda>p. DbBlock.index_block_hash p = k \<and> (Suc (DbBlock.block_height p) = n \<and> \<not> DbBlock.canonical p)) bs"
    by (rule filter_cong) auto
  with distinct_map_filter_le1[OF assms, of k] show ?thesis by simp
qed

subsection \<open>Reorg handling changes flags only\<close>

lemma forget_flag_block:
  "map ((\<lambda>r. r\<lparr>DbBlock.canonical := False\<rparr>) \<circ> (\<lambda>r. if P r then r\<lparr>DbBlock.canonical := v\<rparr> else r)) xs
     = map (\<lambda>r. r\<lparr>DbBlock.canonical := False\<rparr>) xs"
  by (induction xs) auto

lemma forget_flag_block2:
  "map ((\<lambda>r. r\<lparr>DbBlock.canonical := False\<rparr>) \<circ>
        (\<lambda>r. if P r then r\<lparr>DbBlock.canonical := v\<rparr> else if Q r then r\<lparr>DbBlock.canonical := w\<rparr> else r)) xs
     = map (\<lambda>r. r\<lparr>DbBlock.canonical := False\<rparr>) xs"
  by (induction xs) auto

lemma forget_flag_tx:
  "map ((\<lambda>r. r\<lparr>DbTx.canonical := False\<rparr>) \<circ> (\<lambda>r. if P r then r\<lparr>DbTx.canonical := v\<rparr> else r)) xs
     = map (\<lambda>r. r\<lparr>DbTx.canonical := False\<rparr>) xs"
  by (induction xs) auto

lemma forget_flag_event:
  "map ((\<lambda>r. r\<lparr>row_data := (row_data r)\<lparr>DbEventBase.canonical := False\<rparr>\<rparr>) \<circ>
        (\<lambda>r. if P r then r\<lparr>row_data := (row_data r)\<lparr>DbEventBase.canonical := v\<rparr>\<rparr> else r)) xs
     = map (\<lambda>r. r\<lparr>row_data := (row_data r)\<lparr>DbEventBase.canonical := False\<rparr>\<rparr>) xs"
  by (induction xs) auto

lemma forget_flag_contract:
  "map ((\<lambda>r. r\<lparr>row_data := (row_data r)\<lparr>DbSmartContract.canonical := False\<rparr>\<rparr>) \<circ>
        (\<lambda>r. if P r then r\<lparr>row_data := (row_data r)\<lparr>DbSmartContract.canonical := v\<rparr>\<rparr> else r)) xs
     = map (\<lambda>r. r\<lparr>row_data := (row_data r)\<lparr>DbSmartContract.canonical := False\<rparr>\<rparr>) xs"
  by (induction xs) auto

lemma forget_mark_entities [simp]: "forget_canonical (mark_entities g c db) = forget_canonical db"
  by (simp add: forget_canonical_def mark_entities_def forget_flag_tx forget_flag_event forget_flag_contract)

lemma forget_blocks_flags:
  assumes "map (\<lambda>r. r\<lparr>DbBlock.canonical := False\<rparr>) bs' = map (\<lambda>r. r\<lparr>DbBlock.canonical := False\<rparr>) (Database.blocks db)"
  shows "forget_canonical (db\<lparr>Database.blocks := bs'\<rparr>) = forget_canonical db"
  using assms by (simp add: forget_canonical_def)

lemma forget_restored_blocks:
  "forget_canonical (db\<lparr>Database.blocks := restored_blocks h n (Database.blocks db)\<rparr>) = forget_canonical db"
  by (rule forget_blocks_flags) (simp add: restored_blocks_def forget_flag_block2)

lemma forget_restore_step [simp]:
  "forget_canonical (fst (restore_step db h b ue)) = forget_canonical db"
  by (simp add: restore_step_def Let_def fst_markEntitiesCanonical forget_restored_blocks)

lemma restore_multiple_db:
  assumes "1 < length (filter (\<lambda>b. DbBlock.index_block_hash b = h \<and> \<not> DbBlock.canonical b) (Database.blocks db))"
  shows "snd (restoreOrphanedChain db h ue) =
           db\<lparr>Database.blocks :=
                map (\<lambda>r. if DbBlock.index_block_hash r = h \<and> \<not> DbBlock.canonical r
                          then r\<lparr>DbBlock.canonical := True\<rparr> else r) (Database.blocks db)\<rparr>"
proof -
  from assms have "filter (\<lambda>b. DbBlock.index_block_hash b = h \<and> \<not> DbBlock.canonical b) (Database.blocks db) \<noteq> []"
    by auto
  with assms show ?thesis
    by (simp add: restoreOrphanedChain.simps sql_update_def Let_def)
qed

lemma forget_restoreOrphanedChain:
  "forget_canonical (snd (restoreOrphanedChain db h ue)) = forget_canonical db"
proof (induction "orphan_height db h" arbitrary: db h ue rule: less_induct)
  case less
  show ?case
  proof (cases rule: filter_cases[of "\<lambda>x. DbBlock.index_block_hash x = h \<and> \<not> DbBlock.canonical x"
                          "Database.blocks db"])
    case 1
    then show ?thesis by (simp add: restore_not_found)
  next
    case 3
    show ?thesis
      unfolding restore_multiple_db[OF 3]
      by (rule forget_blocks_flags) (simp add: forget_flag_block)
  next
    case (2 b)
    define db4 where "db4 = fst (restore_step db h b ue)"
    define ue4 where "ue4 = snd (restore_step db h b ue)"
    define parents where "parents =
       filter (\<lambda>p. Suc (DbBlock.block_height p) = DbBlock.block_height b \<and>
                    DbBlock.index_block_hash p = parent_index_block_hash b \<and>
                    \<not> DbBlock.canonical p) (Database.blocks db4)"
    have unf: "restoreOrphanedChain db h ue =
       (if length parents > 1 then (Inl MultipleOrphanedParents, db4)
        else if length parents > 0
        then restoreOrphanedChain db4 (DbBlock.index_block_hash (hd parents))
               (ue4\<lparr>UpdatedEntities.blocks := UpdatedEntities.blocks ue4 + 1\<rparr>)
        else (Inr ue4, db4))"
      unfolding db4_def ue4_def parents_def
      by (rule restore_unfold[OF 2, of ue, unfolded Let_def])
    have f4: "forget_canonical db4 = forget_canonical db" by (simp add: db4_def)
    show ?thesis
    proof (cases "length parents > 1 \<or> parents = []")
      case True
      with unf f4 show ?thesis by auto
    next
      case False
      then have len: "0 < length parents" by simp
      have p: "hd parents \<in> set (Database.blocks db4)"
        "Suc (DbBlock.block_height (hd parents)) = DbBlock.block_height b"
        "\<not> DbBlock.canonical (hd parents)"
        using hd_in_filter[of _ "Database.blocks db4"] len unfolding parents_def by blast+
      have "orphan_height db4 (DbBlock.index_block_hash (hd parents)) \<le> Suc (DbBlock.block_height (hd parents))"
        using orphan_height_le[OF p(1)] p(3) by simp
      moreover have "orphan_height db h = Suc (DbBlock.block_height b)"
        using 2 by (simp add: orphan_height_def)
      ultimately have dec: "orphan_height db4 (DbBlock.index_block_hash (hd parents)) < orphan_height db h"
        using p(2) by simp
      have "forget_canonical (snd (restoreOrphanedChain db4 (DbBlock.index_block_hash (hd parents))
               (ue4\<lparr>UpdatedEntities.blocks := UpdatedEntities.blocks ue4 + 1\<rparr>))) = forget_canonical db4"
        by (rule less.hyps[OF dec])
      with unf False f4 show ?thesis by simp
    qed
  qed
qed

lemma forget_handleReorg:
  "forget_canonical (snd (handleReorg db b tip)) = forget_canonical db"
  by (simp add: handleReorg_def Let_def forget_restoreOrphanedChain)

subsection \<open>The rows a successful update inserts\<close>

text \<open>
  A loop or a sequence that returns without an error has run each of its statements
  without an error. Each insert loop of \<open>update\<close> then appends one row per element,
  in order, and \<open>update_entry\<close> appends the rows of its transaction to the five tables
  after the transaction itself is inserted or skipped.
\<close>

lemma forEach_Inr:
  "forEach f (x # xs) db = (Inr u, db') \<Longrightarrow>
     \<exists>db1. f x db = (Inr (), db1) \<and> forEach f xs db1 = (Inr (), db')"
  by (auto split: prod.splits sum.splits)

lemma and_then_Inr:
  "and_then f g db = (Inr u, db') \<Longrightarrow> \<exists>db1. f db = (Inr (), db1) \<and> g db1 = (Inr (), db')"
  by (auto simp: and_then_def split: prod.splits sum.splits)

lemma forEach_appends:
  assumes "\<And>x db db1. x \<in> set xs \<Longrightarrow> f x db = (Inr (), db1) \<Longrightarrow> T db1 = T db @ g x"
    and "forEach f xs db = (Inr (), db')"
  shows "T db' = T db @ concat (map g xs)"
  using assms
proof (induction xs arbitrary: db)
  case Nil
  then show ?case by simp
next
  case (Cons x xs)
  from forEach_Inr[OF Cons.prems(2)] obtain db1
    where 1: "f x db = (Inr (), db1)" and 2: "forEach f xs db1 = (Inr (), db')" by blast
  have "T db1 = T db @ g x" using Cons.prems(1)[OF _ 1] by simp
  moreover have "T db' = T db1 @ concat (map g xs)"
    using Cons.IH[OF _ 2] Cons.prems(1) by simp
  ultimately show ?case by simp
qed

lemma stx_loop:
  "forEach (updateStxEvent t) evs db = (Inr (), db') \<Longrightarrow>
     db' = db\<lparr>stx_events := stx_events db @
              map (\<lambda>e. \<lparr>row_index_block_hash = DbTx.index_block_hash t, row_data = e\<rparr>) evs\<rparr>"
proof (induction evs arbitrary: db)
  case Nil
  then show ?case by simp
next
  case (Cons e evs)
  from forEach_Inr[OF Cons.prems] obtain db1
    where 1: "updateStxEvent t e db = (Inr (), db1)"
      and 2: "forEach (updateStxEvent t) evs db1 = (Inr (), db')" by blast
  from 1 have "db1 = db\<lparr>stx_events := stx_events db @
                 [\<lparr>row_index_block_hash = DbTx.index_block_hash t, row_data = e\<rparr>]\<rparr>"
    by (auto simp: updateStxEvent_def insert_event_def split: if_splits)
  with Cons.IH[OF 2] show ?case by simp
qed

lemma ft_loop:
  "forEach (updateFtEvent t) evs db = (Inr (), db') \<Longrightarrow>
     db' = db\<lparr>ft_events := ft_events db @
              map (\<lambda>e. \<lparr>row_index_block_hash = DbTx.index_block_hash t, row_data = e\<rparr>) evs\<rparr>"
proof (induction evs arbitrary: db)
  case Nil
  then show ?case by simp
next
  case (Cons e evs)
  from forEach_Inr[OF Cons.prems] obtain db1
    where 1: "updateFtEvent t e db = (Inr (), db1)"
      and 2: "forEach (updateFtEvent t) evs db1 = (Inr (), db')" by blast
  from 1 have "db1 = db\<lparr>ft_events := ft_events db @
                 [\<lparr>row_index_block_hash = DbTx.index_block_hash t, row_data = e\<rparr>]\<rparr>"
    by (auto simp: updateFtEvent_def insert_event_def split: if_splits)
  with Cons.IH[OF 2] show ?case by simp
qed

lemma nft_loop:
  "forEach (updateNftEvent t) evs db = (Inr (), db') \<Longrightarrow>
     db' = db\<lparr>nft_events := nft_events db @
              map (\<lambda>e. \<lparr>row_index_block_hash = DbTx.index_block_hash t, row_data = e\<rparr>) evs\<rparr>"
proof (induction evs arbitrary: db)
  case Nil
  then show ?case by simp
next
  case (Cons e evs)
  from forEach_Inr[OF Cons.prems] obtain db1
    where 1: "updateNftEvent t e db = (Inr (), db1)"
      and 2: "forEach (updateNftEvent t) evs db1 = (Inr (), db')" by blast
  from 1 have "db1 = db\<lparr>nft_events := nft_events db @
                 [\<lparr>row_index_block_hash = DbTx.index_block_hash t, row_data = e\<rparr>]\<rparr>"
    by (auto simp: updateNftEvent_def insert_event_def split: if_splits)
  with Cons.IH[OF 2] show ?case by simp
qed

lemma log_loop:
  "forEach (updateSmartContractEvent t) evs db = (Inr (), db') \<Longrightarrow>
     db' = db\<lparr>contract_logs := contract_logs db @
              map (\<lambda>e. \<lparr>row_index_block_hash = DbTx.index_block_hash t, row_data = e\<rparr>) evs\<rparr>"
proof (induction evs arbitrary: db)
  case Nil
  then show ?case by simp
next
  case (Cons e evs)
  from forEach_Inr[OF Cons.prems] obtain db1
    where 1: "updateSmartContractEvent t e db = (Inr (), db1)"
      and 2: "forEach (updateSmartContractEvent t) evs db1 = (Inr (), db')" by blast
  from 1 have "db1 = db\<lparr>contract_logs := contract_logs db @
                 [\<lparr>row_index_block_hash = DbTx.index_block_hash t, row_data = e\<rparr>]\<rparr>"
    by (auto simp: updateSmartContractEvent_def insert_event_def split: if_splits)
  with Cons.IH[OF 2] show ?case by simp
qed

lemma contract_loop:
  "forEach (updateSmartContract t) evs db = (Inr (), db') \<Longrightarrow>
     db' = db\<lparr>smart_contracts := smart_contracts db @
              map (\<lambda>e. \<lparr>row_index_block_hash = DbTx.index_block_hash t, row_data = e\<rparr>) evs\<rparr>"
proof (induction evs arbitrary: db)
  case Nil
  then show ?case by simp
next
  case (Cons e evs)
  from forEach_Inr[OF Cons.prems] obtain db1
    where 1: "updateSmartContract t e db = (Inr (), db1)"
      and 2: "forEach (updateSmartContract t) evs db1 = (Inr (), db')" by blast
  from 1 have "db1 = db\<lparr>smart_contracts := smart_contracts db @
                 [\<lparr>row_index_block_hash = DbTx.index_block_hash t, row_data = e\<rparr>]\<rparr>"
    by (auto simp: updateSmartContract_def)
  with Cons.IH[OF 2] show ?case by simp
qed

lemma update_entry_Inr:
  assumes "update_entry entry db = (Inr (), db')"
  shows "db' = entry_rows entry (snd (updateTx db (tx entry)))"
proof -
  define db0 where "db0 = snd (updateTx db (tx entry))"
  from assms have a: "and_then (forEach (updateStxEvent (tx entry)) (TxEntry.stxEvents entry))
    (and_then (forEach (updateFtEvent (tx entry)) (TxEntry.ftEvents entry))
    (and_then (forEach (updateNftEvent (tx entry)) (TxEntry.nftEvents entry))
    (and_then (forEach (updateSmartContractEvent (tx entry)) (contractLogEvents entry))
              (forEach (updateSmartContract (tx entry)) (TxEntry.smartContracts entry))))) db0
     = (Inr (), db')"
    by (simp add: update_entry_def db0_def)
  from and_then_Inr[OF a] obtain db1 where
    1: "forEach (updateStxEvent (tx entry)) (TxEntry.stxEvents entry) db0 = (Inr (), db1)"
    and a1: "and_then (forEach (updateFtEvent (tx entry)) (TxEntry.ftEvents entry))
    (and_then (forEach (updateNftEvent (tx entry)) (TxEntry.nftEvents entry))
    (and_then (forEach (updateSmartContractEvent (tx entry)) (contractLogEvents entry))
              (forEach (updateSmartContract (tx entry)) (TxEntry.smartContracts entry)))) db1
     = (Inr (), db')" by blast
  from and_then_Inr[OF a1] obtain db2 where
    2: "forEach (updateFtEvent (tx entry)) (TxEntry.ftEvents entry) db1 = (Inr (), db2)"
    and a2: "and_then (forEach (updateNftEvent (tx entry)) (TxEntry.nftEvents entry))
    (and_then (forEach (updateSmartContractEvent (tx entry)) (contractLogEvents entry))
              (forEach (updateSmartContract (tx entry)) (TxEntry.smartContracts entry))) db2
     = (Inr (), db')" by blast
  from and_then_Inr[OF a2] obtain db3 where
    3: "forEach (updateNftEvent (tx entry)) (TxEntry.nftEvents entry) db2 = (Inr (), db3)"
    and a3: "and_then (forEach (updateSmartContractEvent (tx entry)) (contractLogEvents entry))
              (forEach (updateSmartContract (tx entry)) (TxEntry.smartContracts entry)) db3
     = (Inr (), db')" by blast
  from and_then_Inr[OF a3] obtain db4 where
    4: "forEach (updateSmartContractEvent (tx entry)) (contractLogEvents entry) db3 = (Inr (), db4)"
    and 5: "forEach (updateSmartContract (tx entry)) (TxEntry.smartContracts entry) db4 = (Inr (), db')"
    by blast
  show ?thesis
    unfolding db0_def[symmetric] contract_loop[OF 5] log_loop[OF 4] nft_loop[OF 3] ft_loop[OF 2]
      stx_loop[OF 1]
    by (simp add: entry_rows_def rows_of_def)
qed

lemma forEach_Inr_invariant:
  assumes "\<And>x db db1. x \<in> set xs \<Longrightarrow> P db \<Longrightarrow> f x db = (Inr (), db1) \<Longrightarrow> P db1"
    and "P db" and "forEach f xs db = (Inr (), db')"
  shows "P db'"
  using assms
proof (induction xs arbitrary: db)
  case Nil
  then show ?case by simp
next
  case (Cons x xs)
  from forEach_Inr[OF Cons.prems(3)] obtain db1
    where 1: "f x db = (Inr (), db1)" and 2: "forEach f xs db1 = (Inr (), db')" by blast
  have p1: "P db1" using Cons.prems(1)[OF _ Cons.prems(2) 1] by simp
  have step: "P c" if "y \<in> set xs" "P a" "f y a = (Inr (), c)" for y a c
    using Cons.prems(1)[of y a c] that by simp
  show ?case by (rule Cons.IH[OF step p1 2])
qed

lemma rows_of_concat: "concat (map (\<lambda>entry. rows_of ev [entry]) es) = rows_of ev es"
  by (induction es) (simp_all add: rows_of_def)

lemma txs_entry_rows [simp]: "Database.txs (entry_rows entry db) = Database.txs db"
  by (simp add: entry_rows_def)

lemma blocks_entry_rows [simp]: "Database.blocks (entry_rows entry db) = Database.blocks db"
  by (simp add: entry_rows_def)

lemma entries_event_rows:
  assumes "forEach update_entry es db = (Inr (), db')"
  shows "stx_events db' = stx_events db @ rows_of TxEntry.stxEvents es"
    and "ft_events db' = ft_events db @ rows_of TxEntry.ftEvents es"
    and "nft_events db' = nft_events db @ rows_of TxEntry.nftEvents es"
    and "contract_logs db' = contract_logs db @ rows_of contractLogEvents es"
    and "smart_contracts db' = smart_contracts db @ rows_of TxEntry.smartContracts es"
proof -
  have "stx_events db' = stx_events db @ concat (map (\<lambda>entry. rows_of TxEntry.stxEvents [entry]) es)"
    by (rule forEach_appends[where f = update_entry, OF _ assms])
       (auto dest!: update_entry_Inr simp: entry_rows_def updateTx_def)
  then show "stx_events db' = stx_events db @ rows_of TxEntry.stxEvents es"
    by (simp only: rows_of_concat)
  have "ft_events db' = ft_events db @ concat (map (\<lambda>entry. rows_of TxEntry.ftEvents [entry]) es)"
    by (rule forEach_appends[where f = update_entry, OF _ assms])
       (auto dest!: update_entry_Inr simp: entry_rows_def updateTx_def)
  then show "ft_events db' = ft_events db @ rows_of TxEntry.ftEvents es"
    by (simp only: rows_of_concat)
  have "nft_events db' = nft_events db @ concat (map (\<lambda>entry. rows_of TxEntry.nftEvents [entry]) es)"
    by (rule forEach_appends[where f = update_entry, OF _ assms])
       (auto dest!: update_entry_Inr simp: entry_rows_def updateTx_def)
  then show "nft_events db' = nft_events db @ rows_of TxEntry.nftEvents es"
    by (simp only: rows_of_concat)
  have "contract_logs db' = contract_logs db @ concat (map (\<lambda>entry. rows_of contractLogEvents [entry]) es)"
    by (rule forEach_appends[where f = update_entry, OF _ assms])
       (auto dest!: update_entry_Inr simp: entry_rows_def updateTx_def)
  then show "contract_logs db' = contract_logs db @ rows_of contractLogEvents es"
    by (simp only: rows_of_concat)
  have "smart_contracts db' = smart_contracts db @ concat (map (\<lambda>entry. rows_of TxEntry.smartContracts [entry]) es)"
    by (rule forEach_appends[where f = update_entry, OF _ assms])
       (auto dest!: update_entry_Inr simp: entry_rows_def updateTx_def)
  then show "smart_contracts db' = smart_contracts db @ rows_of TxEntry.smartContracts es"
    by (simp only: rows_of_concat)
qed

lemma entries_tx_rows:
  assumes "forEach update_entry es db = (Inr (), db')"
  shows "extends_with (\<lambda>r. r \<in> set (map tx es)) (Database.txs db) (Database.txs db')"
proof (rule forEach_Inr_invariant[where f = update_entry
         and P = "\<lambda>x. extends_with (\<lambda>r. r \<in> set (map tx es)) (Database.txs db) (Database.txs x)",
         OF _ _ assms])
  show "extends_with (\<lambda>r. r \<in> set (map tx es)) (Database.txs db) (Database.txs db)" by simp
next
  fix x y db1
  assume x: "x \<in> set es"
    and p: "extends_with (\<lambda>r. r \<in> set (map tx es)) (Database.txs db) (Database.txs y)"
    and u: "update_entry x y = (Inr (), db1)"
  have "Database.txs db1 = Database.txs (snd (updateTx y (tx x)))"
    using update_entry_Inr[OF u] by simp
  moreover have "tx x \<in> set (map tx es)" using x by simp
  ultimately show "extends_with (\<lambda>r. r \<in> set (map tx es)) (Database.txs db) (Database.txs db1)"
    using p by (simp add: updateTx_def extends_with_snoc)
qed

lemma entries_tx_keys:
  assumes "forEach update_entry es db = (Inr (), db')" "entry \<in> set es"
  shows "tx_key (tx entry) \<in> tx_key ` set (Database.txs db')"
  using assms
proof (induction es arbitrary: db)
  case Nil
  then show ?case by simp
next
  case (Cons x xs)
  from forEach_Inr[OF Cons.prems(1)] obtain db1
    where 1: "update_entry x db = (Inr (), db1)"
      and 2: "forEach update_entry xs db1 = (Inr (), db')" by blast
  show ?case
  proof (cases "entry \<in> set xs")
    case True
    then show ?thesis using Cons.IH[OF 2] by simp
  next
    case False
    with Cons.prems(2) have e: "entry = x" by simp
    have "Database.txs db1 = Database.txs (snd (updateTx db (tx x)))"
      using update_entry_Inr[OF 1] by simp
    then have k: "tx_key (tx x) \<in> tx_key ` set (Database.txs db1)"
      by (auto simp: updateTx_def tx_key_def image_iff)
    have "take (length (Database.txs db1)) (Database.txs db') = Database.txs db1"
      using entries_tx_rows[OF 2] by (simp add: extends_with_def)
    then have "set (Database.txs db1) \<subseteq> set (Database.txs db')"
      by (metis set_take_subset)
    with k e show ?thesis by auto
  qed
qed

lemma tx_key_cleared [simp]: "tx_key (t\<lparr>DbTx.canonical := c\<rparr>) = tx_key t"
  by (simp add: tx_key_def)

lemma update_Inr_statements:
  "update db d = (Inr (), db', tr) \<Longrightarrow> \<exists>d1. update_statements db d = (Inr d1, db')"
  by (auto simp: update_def split: prod.splits sum.splits)

lemma sibling_insert_loop:
  assumes le: "DbBlock.block_height (block d) \<le> blockHeight (getChainTipHeight db)"
    and new: "DbBlock.index_block_hash (block d)
                \<notin> set (map DbBlock.index_block_hash (Database.blocks db))"
    and ok: "update db d = (Inr (), db', tr)"
  shows "forEach update_entry (DataStoreUpdateData.txs (store_as_non_canonical d))
           (db\<lparr>Database.blocks := Database.blocks db @ [(block d)\<lparr>DbBlock.canonical := False\<rparr>]\<rparr>)
         = (Inr (), db')"
proof -
  let ?tip = "blockHeight (getChainTipHeight db)"
  have sb: "stored_batch db d = store_as_non_canonical d"
    using le by (simp add: stored_batch_def)
  have dbr: "snd (handleReorg db (block d) ?tip) = db"
    using le by (simp add: handleReorg_no_restore)
  obtain r where h: "handleReorg db (block d) ?tip = (r, db)"
    using dbr by (cases "handleReorg db (block d) ?tip") auto
  have ub: "updateBlock db (block (store_as_non_canonical d))
              = (1, db\<lparr>Database.blocks := Database.blocks db @ [(block d)\<lparr>DbBlock.canonical := False\<rparr>]\<rparr>)"
    using new by (simp add: updateBlock_def store_as_non_canonical_def)
  from update_Inr_statements[OF ok] obtain d1 where us: "update_statements db d = (Inr d1, db')"
    by blast
  show ?thesis
    using us by (cases r) (auto simp: update_statements_stored h sb ub split: sum.splits prod.splits)
qed

section \<open>Balance queries\<close>

lemma sum_list_sql_sum: "(case sql_sum xs of None \<Rightarrow> 0 | Some v \<Rightarrow> v) = sum_list xs"
  by (simp add: sql_sum_def)

text \<open>
  C5. For every address and every database, \<open>getStxBalance\<close> returns as \<open>totalReceived\<close>
  the sum of the amounts of the canonical \<open>stx_events\<close> rows whose recipient is the address,
  as \<open>totalSent\<close> the sum over the canonical rows whose sender is the address, and as
  \<open>balance\<close> their difference. Non-canonical rows contribute to none of the three: the
  result is the same on the table with every non-canonical row removed.
\<close>

theorem getStxBalance_canonical_sums:
  "totalReceived (getStxBalance db A) =
     sum_list (map (\<lambda>r. DbStxEvent.amount (row_data r))
       (filter (\<lambda>r. DbEventBase.canonical (row_data r) \<and> recipient (row_data r) = Some A)
               (stx_events db)))
   \<and> totalSent (getStxBalance db A) =
     sum_list (map (\<lambda>r. DbStxEvent.amount (row_data r))
       (filter (\<lambda>r. DbEventBase.canonical (row_data r) \<and> sender (row_data r) = Some A)
               (stx_events db)))
   \<and> balance (getStxBalance db A) =
       totalReceived (getStxBalance db A) - totalSent (getStxBalance db A)
   \<and> getStxBalance
       (db\<lparr>stx_events := filter (\<lambda>r. DbEventBase.canonical (row_data r)) (stx_events db)\<rparr>) A
       = getStxBalance db A"
proof -
  have r: "(\<lambda>r. DbEventBase.canonical (row_data r) \<and>
                 (sender (row_data r) = Some A \<or> recipient (row_data r) = Some A) \<and>
                recipient (row_data r) = Some A)
           = (\<lambda>r. DbEventBase.canonical (row_data r) \<and> recipient (row_data r) = Some A)"
    by auto
  have s: "(\<lambda>r. DbEventBase.canonical (row_data r) \<and>
                 (sender (row_data r) = Some A \<or> recipient (row_data r) = Some A) \<and>
                sender (row_data r) = Some A)
           = (\<lambda>r. DbEventBase.canonical (row_data r) \<and> sender (row_data r) = Some A)"
    by auto
  have c: "(\<lambda>r. DbEventBase.canonical (row_data r) \<and> DbEventBase.canonical (row_data r) \<and>
                (sender (row_data r) = Some A \<or> recipient (row_data r) = Some A))
           = (\<lambda>r. DbEventBase.canonical (row_data r) \<and>
                (sender (row_data r) = Some A \<or> recipient (row_data r) = Some A))"
    by auto
  show ?thesis
    by (simp add: getStxBalance_def Let_def sum_list_sql_sum r s c)
qed

theorem getStxBalance_canonical_sums_witness:
  "totalReceived (getStxBalance db_balance ''A'') = 100
   \<and> totalSent (getStxBalance db_balance ''A'') = 30
   \<and> balance (getStxBalance db_balance ''A'') = 70
   \<and> getStxBalance
       (db_balance\<lparr>stx_events :=
          filter (\<lambda>r. DbEventBase.canonical (row_data r)) (stx_events db_balance)\<rparr>) ''A''
       = getStxBalance db_balance ''A''"
  using getStxBalance_canonical_sums[of db_balance "''A''"]
  by (simp add: db_balance_def empty_db_def mk_stx_def)

section \<open>The chain tip\<close>

text \<open>
  C6. \<open>getChainTipHeight\<close> is to return the greatest height among the canonical blocks,
  also when a non-canonical block is higher. On the database with a canonical block at
  height 1 and a non-canonical block at height 2 it returns height 0 and the hashes of
  no block: the inner \<open>MAX(block_height)\<close> ranges over all blocks, so no canonical row
  has that height.
\<close>

theorem getChainTipHeight_misses_canonical_tip:
  "Database.blocks db_orphan_tip = [mk_block ''A'' ''G'' 1 True, mk_block ''B'' ''A'' 2 False]
   \<and> getChainTipHeight db_orphan_tip =
       \<lparr>blockHeight = 0, blockHash = [], indexBlockHash = []\<rparr>"
  by (simp add: db_orphan_tip_def empty_db_def getChainTipHeight_def sql_max_def mk_block_def)

text \<open>
  Where a canonical block has the greatest height of all blocks, the height returned is
  that height, the greatest among the canonical blocks.
\<close>

lemma fold_max_bounds:
  "(m::nat) \<le> fold max xs m \<and> (\<forall>x \<in> set xs. x \<le> fold max xs m) \<and> (fold max xs m = m \<or> fold max xs m \<in> set xs)"
proof (induction xs arbitrary: m)
  case Nil
  then show ?case by simp
next
  case (Cons a xs)
  from Cons.IH[of "max a m"] show ?case by (auto simp: max_def split: if_splits)
qed

lemma getChainTipHeight_canonical_tip:
  assumes "b \<in> set (Database.blocks db)" "DbBlock.canonical b"
    and "\<forall>x \<in> set (Database.blocks db). DbBlock.block_height x \<le> DbBlock.block_height b"
  shows "blockHeight (getChainTipHeight db) = DbBlock.block_height b"
proof -
  define bs where "bs = Database.blocks db"
  define M where "M = fold max (map DbBlock.block_height bs) 0"
  have ne: "bs \<noteq> []" using assms(1) by (auto simp: bs_def)
  have "DbBlock.block_height b \<le> M"
    using fold_max_bounds[of 0 "map DbBlock.block_height bs"] assms(1) by (simp add: M_def bs_def)
  moreover have "M \<le> DbBlock.block_height b"
    using fold_max_bounds[of 0 "map DbBlock.block_height bs"] assms(3) by (auto simp: M_def bs_def)
  ultimately have M: "M = DbBlock.block_height b" by simp
  define F where "F = filter (\<lambda>x. DbBlock.canonical x \<and> Some (DbBlock.block_height x) = sql_max (map DbBlock.block_height bs)) bs"
  have sm: "sql_max (map DbBlock.block_height bs) = Some M" using ne by (simp add: sql_max_def M_def)
  have "b \<in> set bs" using assms(1) by (simp add: bs_def)
  then have "b \<in> set F" using assms(2) M by (simp add: F_def sm)
  then obtain r rest where F: "F = r # rest" by (cases F) auto
  then have "r \<in> set F" by simp
  then have "DbBlock.block_height r = M" by (simp add: F_def sm)
  then show ?thesis
    using F M by (simp add: getChainTipHeight_def F_def[symmetric] bs_def[symmetric])
qed

section \<open>handleReorg\<close>

text \<open>
  C2. For an incoming block of height greater than 1, \<open>handleReorg\<close> throws the
  parent-missing error when no stored block matches (\<open>block_height - 1\<close>,
  \<open>parent_index_block_hash\<close>), throws the multiple-parents error when more than one
  matches, changes nothing when the parent is canonical, is the call of
  \<open>restoreOrphanedChain\<close> on the parent (with the block counter at 1) when the parent is
  non-canonical and the incoming height exceeds the chain tip height it is given, and
  changes nothing when the parent is non-canonical and the incoming height does not
  exceed that height.
\<close>

theorem handleReorg_cases:
  assumes "1 < DbBlock.block_height b"
  shows "(parent_rows db b = [] \<longrightarrow>
            handleReorg db b tip =
              (Inl (ParentMissing (DbBlock.block_height b - 1) (parent_index_block_hash b)), db))
       \<and> (1 < length (parent_rows db b) \<longrightarrow>
            handleReorg db b tip =
              (Inl (MultipleParents (DbBlock.block_height b - 1) (parent_index_block_hash b)), db))
       \<and> (\<forall>p. parent_rows db b = [p] \<and> DbBlock.canonical p \<longrightarrow>
            handleReorg db b tip = (Inr no_updates, db))
       \<and> (\<forall>p. parent_rows db b = [p] \<and> \<not> DbBlock.canonical p \<and> tip < DbBlock.block_height b \<longrightarrow>
            handleReorg db b tip =
              restoreOrphanedChain db (DbBlock.index_block_hash p)
                (no_updates\<lparr>UpdatedEntities.blocks := 1\<rparr>))
       \<and> (\<forall>p. parent_rows db b = [p] \<and> \<not> DbBlock.canonical p \<and> \<not> tip < DbBlock.block_height b \<longrightarrow>
            handleReorg db b tip = (Inr no_updates, db))"
  using assms by (rule handleReorg_branches)

theorem handleReorg_cases_witness:
  "1 < DbBlock.block_height (mk_block ''D2'' ''C2'' 4 True)
   \<and> parent_rows db_fork (mk_block ''D2'' ''C2'' 4 True) = [mk_block ''C2'' ''B2'' 3 False]
   \<and> handleReorg db_fork (mk_block ''D2'' ''C2'' 4 True) 3 =
       restoreOrphanedChain db_fork ''C2'' (no_updates\<lparr>UpdatedEntities.blocks := 1\<rparr>)
   \<and> map DbBlock.canonical
         (Database.blocks (snd (handleReorg db_fork (mk_block ''D2'' ''C2'' 4 True) 3)))
       = [True, False, False, True, True]
   \<and> handleReorg db_fork (mk_block ''D2'' ''C2'' 4 True) 4 = (Inr no_updates, db_fork)
   \<and> handleReorg db_fork (mk_block ''D'' ''C'' 4 True) 3 = (Inr no_updates, db_fork)
   \<and> handleReorg db_fork (mk_block ''E'' ''Z'' 4 True) 3 = (Inl (ParentMissing 3 ''Z''), db_fork)"
  using handleReorg_cases[of "mk_block ''D2'' ''C2'' 4 True" db_fork 3]
        handleReorg_cases[of "mk_block ''D2'' ''C2'' 4 True" db_fork 4]
        handleReorg_cases[of "mk_block ''D'' ''C'' 4 True" db_fork 3]
        handleReorg_cases[of "mk_block ''E'' ''Z'' 4 True" db_fork 3]
  by (simp add: parent_rows_def example_defs reorg_defs)

section \<open>update: commit, rollback and notifications\<close>

text \<open>
  C9. When a statement of \<open>update\<close> between \<open>BEGIN\<close> and \<open>COMMIT\<close> throws (in reorg
  handling, in the block insert or in an insert of a transaction or event), \<open>update\<close>
  rolls back and rethrows that error: the committed database is the one before the call,
  whatever the transaction had written, and nothing is emitted. \<open>update\<close> returns an
  error in no other way.
\<close>

theorem update_error_rolls_back:
  "(fst (update_statements db d) = Inl e \<longrightarrow> update db d = (Inl e, db, [Begin, Rollback]))
   \<and> (fst (update db d) = Inl e \<longrightarrow>
        fst (update_statements db d) = Inl e \<and> snd (update db d) = (db, [Begin, Rollback]))"
  by (auto simp: update_def split: prod.splits sum.splits)

theorem update_error_rolls_back_witness:
  "fst (update_statements db_fork batch_dup_events) = Inl (UniqueViolation ''stx_events'')
   \<and> length (Database.blocks (snd (update_statements db_fork batch_dup_events))) = 6
   \<and> length (Database.blocks db_fork) = 5
   \<and> update db_fork batch_dup_events = (Inl (UniqueViolation ''stx_events''), db_fork, [Begin, Rollback])
   \<and> fst (update_statements db_single batch_reorg) = Inl (ParentMissing 3 ''C2'')
   \<and> update db_single batch_reorg = (Inl (ParentMissing 3 ''C2''), db_single, [Begin, Rollback])"
  using update_error_rolls_back[of db_fork batch_dup_events "UniqueViolation ''stx_events''"]
        update_error_rolls_back[of db_single batch_reorg "ParentMissing 3 ''C2''"]
  by (simp add: batch_dup_events_def batch_reorg_def db_single_def example_defs update_defs)

text \<open>
  C8, as amended. A successful \<open>update\<close> emits after \<open>COMMIT\<close> and only then: first
  \<open>blockUpdate\<close> of the batch's block, then one \<open>txUpdate\<close> for each transaction in the
  order in which the batch lists them, so the emitted \<open>tx_index\<close> values are those of the
  batch in batch order. A failed \<open>update\<close> rolls back and emits nothing.
\<close>

theorem update_emits_after_commit:
  "(fst (update db d) = Inr () \<longrightarrow>
      snd (snd (update db d)) =
        [Begin, Commit, Emit (blockUpdate (block (stored_batch db d)))] @
        map (\<lambda>entry. Emit (txUpdate (tx entry))) (DataStoreUpdateData.txs (stored_batch db d))
      \<and> emitted_tx_indices (snd (snd (update db d))) =
          map (\<lambda>entry. DbTx.tx_index (tx entry)) (DataStoreUpdateData.txs d))
   \<and> (\<forall>e. fst (update db d) = Inl e \<longrightarrow> snd (snd (update db d)) = [Begin, Rollback])"
proof (intro conjI impI allI)
  assume ok: "fst (update db d) = Inr ()"
  show tr: "snd (snd (update db d)) =
        [Begin, Commit, Emit (blockUpdate (block (stored_batch db d)))] @
        map (\<lambda>entry. Emit (txUpdate (tx entry))) (DataStoreUpdateData.txs (stored_batch db d))"
    using update_success[OF ok] by simp
  show "emitted_tx_indices (snd (snd (update db d))) =
          map (\<lambda>entry. DbTx.tx_index (tx entry)) (DataStoreUpdateData.txs d)"
    unfolding tr emitted_tx_indices_trace stored_batch_tx_index ..
next
  fix e assume "fst (update db d) = Inl e"
  then show "snd (snd (update db d)) = [Begin, Rollback]"
    by (auto simp: update_def split: prod.splits sum.splits)
qed

theorem update_emits_after_commit_witness:
  "fst (update empty_db batch_unsorted) = Inr ()
   \<and> snd (snd (update empty_db batch_unsorted)) =
       [Begin, Commit, Emit (blockUpdate (mk_block ''A'' ''G'' 1 True)),
        Emit (txUpdate (mk_tx ''t1'' 1 ''A'' 1 True)), Emit (txUpdate (mk_tx ''t0'' 0 ''A'' 1 True))]
   \<and> fst (update db_fork batch_dup_events) = Inl (UniqueViolation ''stx_events'')
   \<and> snd (snd (update db_fork batch_dup_events)) = [Begin, Rollback]"
  using update_emits_after_commit[of empty_db batch_unsorted]
        update_emits_after_commit[of db_fork batch_dup_events]
  by (simp add: batch_unsorted_def batch_dup_events_def stored_batch_def example_defs update_defs)

text \<open>
  C8 as stated fails: a batch that lists \<open>tx_index\<close> 1 before 0 is emitted in that order,
  not in ascending \<open>tx_index\<close>.
\<close>

theorem txUpdate_order_counterexample:
  "fst (update empty_db batch_unsorted) = Inr ()
   \<and> emitted_tx_indices (snd (snd (update empty_db batch_unsorted))) = [1, 0]
   \<and> \<not> sorted (emitted_tx_indices (snd (snd (update empty_db batch_unsorted))))"
  by (simp add: batch_unsorted_def example_defs update_defs emitted_tx_indices_def emitted_def)

text \<open>
  C7, as amended. When reorg handling succeeds and the block insert affects zero rows,
  \<open>update\<close> commits the database as reorg handling left it, with no block, transaction
  or event row written (the committed database has the rows it had, up to \<open>canonical\<close>
  flags), and emits one \<open>blockUpdate\<close> and one \<open>txUpdate\<close> for each transaction of the
  batch.
\<close>

theorem duplicate_block_commits_and_emits:
  assumes "fst (handleReorg db (block d) (blockHeight (getChainTipHeight db))) = Inr ue"
    and "fst (updateBlock (snd (handleReorg db (block d) (blockHeight (getChainTipHeight db))))
                (block (stored_batch db d))) = 0"
  shows "update db d =
           (Inr (), snd (handleReorg db (block d) (blockHeight (getChainTipHeight db))),
            [Begin, Commit, Emit (blockUpdate (block (stored_batch db d)))] @
            map (\<lambda>entry. Emit (txUpdate (tx entry))) (DataStoreUpdateData.txs (stored_batch db d)))
       \<and> forget_canonical (fst (snd (update db d))) = forget_canonical db"
proof -
  obtain db1 where h: "handleReorg db (block d) (blockHeight (getChainTipHeight db)) = (Inr ue, db1)"
    using assms(1) by (cases "handleReorg db (block d) (blockHeight (getChainTipHeight db))") auto
  have u: "updateBlock db1 (block (stored_batch db d)) = (0, db1)"
    using assms(2) h by (simp add: updateBlock_zero)
  have "update_statements db d = (Inr (stored_batch db d), db1)"
    by (simp add: update_statements_stored h u)
  then show ?thesis using forget_handleReorg[of db "block d" "blockHeight (getChainTipHeight db)"]
    by (simp add: update_def h)
qed

theorem duplicate_block_commits_and_emits_witness:
  "fst (handleReorg db_fork (block batch_redelivered) (blockHeight (getChainTipHeight db_fork))) = Inr no_updates
   \<and> fst (updateBlock (snd (handleReorg db_fork (block batch_redelivered) (blockHeight (getChainTipHeight db_fork))))
                (block (stored_batch db_fork batch_redelivered))) = 0
   \<and> update db_fork batch_redelivered =
       (Inr (), db_fork,
        [Begin, Commit, Emit (blockUpdate (mk_block ''C'' ''B'' 3 False)),
         Emit (txUpdate (mk_tx ''t9'' 0 ''C'' 3 False))])
   \<and> forget_canonical (fst (snd (update db_fork batch_redelivered))) = forget_canonical db_fork"
  using duplicate_block_commits_and_emits[of db_fork batch_redelivered no_updates]
  by (simp add: batch_redelivered_def stored_batch_def example_defs update_defs)

text \<open>
  C7 as stated fails: delivering the stored block C again affects zero rows and leaves
  the database as it was, yet a \<open>blockUpdate\<close> and a \<open>txUpdate\<close> are emitted.
\<close>

theorem duplicate_block_emits_counterexample:
  "fst (updateBlock db_fork (block (stored_batch db_fork batch_redelivered))) = 0
   \<and> fst (update db_fork batch_redelivered) = Inr ()
   \<and> fst (snd (update db_fork batch_redelivered)) = db_fork
   \<and> emitted (snd (snd (update db_fork batch_redelivered))) =
       [blockUpdate (mk_block ''C'' ''B'' 3 False), txUpdate (mk_tx ''t9'' 0 ''C'' 3 False)]"
  by (simp add: batch_redelivered_def stored_batch_def example_defs update_defs emitted_def)


section \<open>Siblings of history\<close>

text \<open>
  When the block of a batch is not higher than the height \<open>update\<close> reads from
  \<open>getChainTipHeight\<close>, a successful \<open>update\<close> leaves every stored row as it was, and
  every row it appends, to any of the seven tables, has \<open>canonical = false\<close>.
\<close>

lemma below_tip_stored_non_canonical:
  assumes "DbBlock.block_height (block d) \<le> blockHeight (getChainTipHeight db)"
    and "update db d = (Inr (), db', tr)"
  shows "stored_non_canonical db db'"
proof -
  let ?tip = "blockHeight (getChainTipHeight db)"
  have sb: "stored_batch db d = store_as_non_canonical d"
    using assms(1) by (simp add: stored_batch_def)
  have dbr: "snd (handleReorg db (block d) ?tip) = db"
    using assms(1) by (simp add: handleReorg_no_restore)
  have ok: "fst (update db d) = Inr ()" using assms(2) by simp
  have db': "db' = snd (update_statements db d)"
    using update_success[OF ok] assms(2) by simp
  obtain r where h: "handleReorg db (block d) ?tip = (r, db)"
    using dbr by (cases "handleReorg db (block d) ?tip") auto
  define db2 where "db2 = snd (updateBlock db (block (store_as_non_canonical d)))"
  have p2: "stored_non_canonical db db2"
    unfolding db2_def by (rule snc_updateBlock) (simp_all add: store_as_non_canonical_def)
  have p3: "stored_non_canonical db
              (snd (forEach update_entry (DataStoreUpdateData.txs (store_as_non_canonical d)) db2))"
    by (rule forEach_invariant[where P = "stored_non_canonical db"]) (auto intro: snc_update_entry p2)
  show ?thesis
    using p2 p3 unfolding db' update_statements_stored h sb db2_def
    by (auto split: sum.splits prod.splits if_splits)
qed

text \<open>
  Let a canonical block have the greatest height of all stored blocks, so that
  \<open>getChainTipHeight\<close> returns the canonical chain tip height, and let the block of a
  batch be not higher than it and its \<open>index_block_hash\<close> not stored yet. A successful
  \<open>update\<close> then appends the block with \<open>canonical = false\<close> to \<open>blocks\<close>, and to each
  event table and to \<open>smart_contracts\<close> exactly the rows of the batch, in order, each
  with \<open>canonical = false\<close>. It extends \<open>txs\<close> by transactions of the batch with
  \<open>canonical = false\<close> only, and afterwards \<open>txs\<close> holds a row with the key of every
  transaction of the batch (the insert skips a key that is already there). No stored
  row changes, so the canonical block at that height stays canonical.
\<close>

lemma sibling_rows_stored:
  assumes tip: "b \<in> set (Database.blocks db)" "DbBlock.canonical b"
      "\<forall>x \<in> set (Database.blocks db). DbBlock.block_height x \<le> DbBlock.block_height b"
    and le: "DbBlock.block_height (block d) \<le> DbBlock.block_height b"
    and new: "DbBlock.index_block_hash (block d)
                \<notin> set (map DbBlock.index_block_hash (Database.blocks db))"
    and ok: "update db d = (Inr (), db', tr)"
  shows "Database.blocks db' = Database.blocks db @ [(block d)\<lparr>DbBlock.canonical := False\<rparr>]"
    and "extends_with (\<lambda>r. r \<in> set (map tx (DataStoreUpdateData.txs (store_as_non_canonical d))))
           (Database.txs db) (Database.txs db')"
    and "\<forall>entry \<in> set (DataStoreUpdateData.txs d). tx_key (tx entry) \<in> tx_key ` set (Database.txs db')"
    and "stx_events db' = stx_events db
           @ rows_of TxEntry.stxEvents (DataStoreUpdateData.txs (store_as_non_canonical d))"
    and "ft_events db' = ft_events db
           @ rows_of TxEntry.ftEvents (DataStoreUpdateData.txs (store_as_non_canonical d))"
    and "nft_events db' = nft_events db
           @ rows_of TxEntry.nftEvents (DataStoreUpdateData.txs (store_as_non_canonical d))"
    and "contract_logs db' = contract_logs db
           @ rows_of contractLogEvents (DataStoreUpdateData.txs (store_as_non_canonical d))"
    and "smart_contracts db' = smart_contracts db
           @ rows_of TxEntry.smartContracts (DataStoreUpdateData.txs (store_as_non_canonical d))"
    and "stored_non_canonical db db'"
proof -
  have le': "DbBlock.block_height (block d) \<le> blockHeight (getChainTipHeight db)"
    using getChainTipHeight_canonical_tip[OF tip] le by simp
  define db2 where
    "db2 = db\<lparr>Database.blocks := Database.blocks db @ [(block d)\<lparr>DbBlock.canonical := False\<rparr>]\<rparr>"
  define es where "es = DataStoreUpdateData.txs (store_as_non_canonical d)"
  have loop: "forEach update_entry es db2 = (Inr (), db')"
    unfolding es_def db2_def by (rule sibling_insert_loop[OF le' new ok])
  have "Database.blocks db' = Database.blocks db2"
    using blocks_forEach_update_entry[of es db2] loop by simp
  then show "Database.blocks db' = Database.blocks db @ [(block d)\<lparr>DbBlock.canonical := False\<rparr>]"
    by (simp add: db2_def)
  show "extends_with (\<lambda>r. r \<in> set (map tx (DataStoreUpdateData.txs (store_as_non_canonical d))))
           (Database.txs db) (Database.txs db')"
    using entries_tx_rows[OF loop] by (simp add: db2_def es_def)
  show "\<forall>entry \<in> set (DataStoreUpdateData.txs d). tx_key (tx entry) \<in> tx_key ` set (Database.txs db')"
  proof
    fix entry assume e: "entry \<in> set (DataStoreUpdateData.txs d)"
    then obtain entry' where "entry' \<in> set es" "tx entry' = (tx entry)\<lparr>DbTx.canonical := False\<rparr>"
      by (force simp: es_def store_as_non_canonical_def)
    with entries_tx_keys[OF loop, of entry'] show "tx_key (tx entry) \<in> tx_key ` set (Database.txs db')"
      by simp
  qed
  show "stx_events db' = stx_events db
           @ rows_of TxEntry.stxEvents (DataStoreUpdateData.txs (store_as_non_canonical d))"
    using entries_event_rows(1)[OF loop] by (simp add: db2_def es_def)
  show "ft_events db' = ft_events db
           @ rows_of TxEntry.ftEvents (DataStoreUpdateData.txs (store_as_non_canonical d))"
    using entries_event_rows(2)[OF loop] by (simp add: db2_def es_def)
  show "nft_events db' = nft_events db
           @ rows_of TxEntry.nftEvents (DataStoreUpdateData.txs (store_as_non_canonical d))"
    using entries_event_rows(3)[OF loop] by (simp add: db2_def es_def)
  show "contract_logs db' = contract_logs db
           @ rows_of contractLogEvents (DataStoreUpdateData.txs (store_as_non_canonical d))"
    using entries_event_rows(4)[OF loop] by (simp add: db2_def es_def)
  show "smart_contracts db' = smart_contracts db
           @ rows_of TxEntry.smartContracts (DataStoreUpdateData.txs (store_as_non_canonical d))"
    using entries_event_rows(5)[OF loop] by (simp add: db2_def es_def)
  show "stored_non_canonical db db'"
    by (rule below_tip_stored_non_canonical[OF le' ok])
qed

lemma sibling_rows_stored_example:
  "mk_block ''C'' ''B'' 3 True \<in> set (Database.blocks db_fork)
   \<and> (\<forall>x \<in> set (Database.blocks db_fork). DbBlock.block_height x \<le> 3)
   \<and> DbBlock.block_height (block batch_sibling) = 2
   \<and> update db_fork batch_sibling =
       (Inr (),
        db_fork\<lparr>Database.blocks := Database.blocks db_fork @ [mk_block ''B3'' ''A'' 2 False],
                Database.txs := Database.txs db_fork @ [mk_tx ''t4'' 0 ''B3'' 2 False],
                stx_events := stx_events db_fork @
                  [\<lparr>row_index_block_hash = ''B3'',
                    row_data = mk_stx 0 ''t4'' 2 False None (Some ''A'') 9\<rparr>]\<rparr>,
        [Begin, Commit, Emit (blockUpdate (mk_block ''B3'' ''A'' 2 False)),
         Emit (txUpdate (mk_tx ''t4'' 0 ''B3'' 2 False))])"
  by (simp add: batch_sibling_def example_defs update_defs)

text \<open>
  C4. A batch whose block height is at most the canonical chain tip height is to be
  stored with \<open>canonical = false\<close> on its block, transactions and events, so that it does
  not displace the canonical block at its height. On the database with the canonical
  block A at height 1 and the non-canonical block B at height 2, the canonical chain tip
  height is 1. \<open>update\<close> of a batch with a new block A2 of height 1, one transaction and
  one STX event succeeds and stores all three with \<open>canonical = true\<close>: there are then
  two canonical blocks at height 1. \<open>update\<close> compares the block height with the height
  \<open>getChainTipHeight\<close> returns, which is 0 on this database, because the inner
  \<open>MAX(block_height)\<close> of its query ranges over all blocks, not over the canonical ones.
\<close>

theorem update_stores_sibling_canonical:
  "map DbBlock.block_height (filter DbBlock.canonical (Database.blocks db_orphan_tip)) = [1]
   \<and> DbBlock.block_height (block batch_low) = 1
   \<and> blockHeight (getChainTipHeight db_orphan_tip) = 0
   \<and> update db_orphan_tip batch_low =
       (Inr (),
        empty_db\<lparr>Database.blocks :=
                   [mk_block ''A'' ''G'' 1 True, mk_block ''B'' ''A'' 2 False,
                    mk_block ''A2'' ''G'' 1 True],
                 Database.txs := [mk_tx ''t6'' 0 ''A2'' 1 True],
                 stx_events :=
                   [\<lparr>row_index_block_hash = ''A2'',
                     row_data = mk_stx 0 ''t6'' 1 True None (Some ''A'') 9\<rparr>]\<rparr>,
        [Begin, Commit, Emit (blockUpdate (mk_block ''A2'' ''G'' 1 True)),
         Emit (txUpdate (mk_tx ''t6'' 0 ''A2'' 1 True))])
   \<and> \<not> stored_non_canonical db_orphan_tip (fst (snd (update db_orphan_tip batch_low)))"
  by (simp add: batch_low_def db_orphan_tip_def example_defs update_defs
                stored_non_canonical_def extends_with_def)

text \<open>
  That database is what two calls of \<open>update\<close> leave of the empty one: the first stores
  the block A of height 1, the second a block B of height 2 on A that is delivered with
  \<open>canonical = false\<close>.
\<close>

lemma db_orphan_tip_reached:
  "fst (update empty_db batch_genesis) = Inr ()
   \<and> fst (update (fst (snd (update empty_db batch_genesis))) batch_orphan) = Inr ()
   \<and> fst (snd (update (fst (snd (update empty_db batch_genesis))) batch_orphan)) = db_orphan_tip"
  by (simp add: batch_genesis_def batch_orphan_def db_orphan_tip_def example_defs update_defs)

section \<open>Redelivery\<close>

text \<open>
  C3. Ingesting a batch again, on the database the first ingestion left, leaves that
  database as it is, whether the batch is handed in as it was decoded or as the first
  \<open>update\<close> left the object (with its flags cleared). When the first ingestion succeeded,
  so does the second: its reorg handling flips nothing, its block insert conflicts on
  \<open>index_block_hash\<close> and affects zero rows, and its transaction reaches \<open>COMMIT\<close> on an
  unchanged database, so it writes no transaction, event, contract-log or smart-contract
  row.
\<close>

theorem update_twice:
  assumes "update db d = (r, db', tr)"
  shows "fst (snd (update db' d)) = db'
       \<and> fst (snd (update db' (stored_batch db d))) = db'
       \<and> (r = Inr () \<longrightarrow>
            handleReorg db' (block d) (blockHeight (getChainTipHeight db')) = (Inr no_updates, db')
          \<and> updateBlock db' (block (stored_batch db' d)) = (0, db')
          \<and> update_statements db' d = (Inr (stored_batch db' d), db')
          \<and> fst (update db' d) = Inr ()
          \<and> update_statements db' (stored_batch db d)
              = (Inr (stored_batch db' (stored_batch db d)), db')
          \<and> fst (update db' (stored_batch db d)) = Inr ())"
proof (cases r)
  case (Inl e)
  with assms have "db' = db" by (auto simp: update_def split: prod.splits sum.splits)
  with assms Inl show ?thesis by (simp add: update_stored_batch)
next
  case (Inr u)
  with assms obtain d1 where s: "update_statements db d = (Inr d1, db')"
    by (auto simp: update_def split: prod.splits sum.splits)
  note again = update_statements_again[OF s refl refl refl]
  note again' = update_statements_again[OF s, of "stored_batch db d",
      OF stored_batch_block(1) stored_batch_block(2) stored_batch_parent]
  from again(3) have "update db' d =
      (Inr (), db', [Begin, Commit, Emit (blockUpdate (block (stored_batch db' d)))] @
           map (\<lambda>entry. Emit (txUpdate (tx entry))) (DataStoreUpdateData.txs (stored_batch db' d)))"
    by (simp add: update_def)
  moreover from again'(3) have "update db' (stored_batch db d) =
      (Inr (), db', [Begin, Commit, Emit (blockUpdate (block (stored_batch db' (stored_batch db d))))] @
           map (\<lambda>entry. Emit (txUpdate (tx entry)))
             (DataStoreUpdateData.txs (stored_batch db' (stored_batch db d))))"
    by (simp add: update_def)
  ultimately show ?thesis using again again'(3) by simp
qed

theorem update_twice_witness:
  "fst (update db_fork batch_reorg) = Inr ()
   \<and> map DbBlock.canonical (Database.blocks (fst (snd (update db_fork batch_reorg))))
       = [True, False, False, True, True, True]
   \<and> fst (snd (update (fst (snd (update db_fork batch_reorg))) batch_reorg))
       = fst (snd (update db_fork batch_reorg))
   \<and> fst (update (fst (snd (update db_fork batch_reorg))) batch_reorg) = Inr ()"
proof -
  obtain db' tr where u: "update db_fork batch_reorg = (Inr (), db', tr)"
    by (simp add: batch_reorg_def example_defs update_defs reorg_defs)
  have "map DbBlock.canonical (Database.blocks db') = [True, False, False, True, True, True]"
    using u by (auto simp: batch_reorg_def example_defs update_defs reorg_defs)
  with update_twice[OF u] u show ?thesis by simp
qed

section \<open>restoreOrphanedChain against its description\<close>

text \<open>
  C1, as amended. On a database whose blocks have distinct \<open>index_block_hash\<close> and whose
  canonical blocks have distinct heights, \<open>restoreOrphanedChain\<close> does what its
  description says, for every hash: it fails when no non-canonical block has the hash
  (or several have); otherwise it sets that block to canonical, sets the other canonical
  block at its height to non-canonical and marks that block's transactions, events,
  contract logs and smart contracts non-canonical, marks the entities of the hash
  canonical, and recurses on the parent when a non-canonical block exists at
  (\<open>block_height - 1\<close>, \<open>parent_index_block_hash\<close>). Error or final database agree with
  \<open>restoreOrphanedChain_spec\<close>.
\<close>

theorem restoreOrphanedChain_refines_spec:
  assumes "distinct (map DbBlock.index_block_hash (Database.blocks db))"
    and "distinct (map DbBlock.block_height (filter DbBlock.canonical (Database.blocks db)))"
  shows "outcome (restoreOrphanedChain db h ue) = restoreOrphanedChain_spec db h"
  using assms
proof (induction "orphan_height db h" arbitrary: db h ue rule: less_induct)
  case less
  show ?case
  proof (cases rule: filter_cases[of "\<lambda>x. DbBlock.index_block_hash x = h \<and> \<not> DbBlock.canonical x"
                          "Database.blocks db"])
    case 1
    then have "orphans_of db h = []" by (simp add: orphans_of_def)
    then have "restoreOrphanedChain_spec db h = Inl (OrphanNotFound h)"
      by (simp add: restoreOrphanedChain_spec.simps)
    with restore_not_found[OF 1, of ue] show ?thesis by (simp add: outcome_def)
  next
    case 3
    then obtain a c rest where "orphans_of db h = a # c # rest"
      unfolding orphans_of_def
      by (cases "filter (\<lambda>x. DbBlock.index_block_hash x = h \<and> \<not> DbBlock.canonical x) (Database.blocks db)"
            rule: list.exhaust;
          cases "tl (filter (\<lambda>x. DbBlock.index_block_hash x = h \<and> \<not> DbBlock.canonical x) (Database.blocks db))")
         auto
    then have "restoreOrphanedChain_spec db h = Inl (MultipleOrphans h)"
      by (simp add: restoreOrphanedChain_spec.simps)
    moreover from restore_multiple[OF 3, of ue]
    have "outcome (restoreOrphanedChain db h ue) = Inl (MultipleOrphans h)"
      by (cases "restoreOrphanedChain db h ue") (simp add: outcome_def)
    ultimately show ?thesis by simp
  next
    case (2 b)
    define db4 where "db4 = fst (restore_step db h b ue)"
    define ue4 where "ue4 = snd (restore_step db h b ue)"
    define parents where "parents =
       filter (\<lambda>p. Suc (DbBlock.block_height p) = DbBlock.block_height b \<and>
                    DbBlock.index_block_hash p = parent_index_block_hash b \<and>
                    \<not> DbBlock.canonical p) (Database.blocks db4)"
    have unf: "restoreOrphanedChain db h ue =
       (if length parents > 1 then (Inl MultipleOrphanedParents, db4)
        else if length parents > 0
        then restoreOrphanedChain db4 (DbBlock.index_block_hash (hd parents))
               (ue4\<lparr>UpdatedEntities.blocks := UpdatedEntities.blocks ue4 + 1\<rparr>)
        else (Inr ue4, db4))"
      unfolding db4_def ue4_def parents_def
      by (rule restore_unfold[OF 2, of ue, unfolded Let_def])
    have bs4: "Database.blocks db4 = restored_blocks h (DbBlock.block_height b) (Database.blocks db)"
      by (simp add: db4_def)
    have ex: "(\<exists>p \<in> set (Database.blocks db4).
                   Suc (DbBlock.block_height p) = DbBlock.block_height b \<and>
                   DbBlock.index_block_hash p = parent_index_block_hash b \<and>
                   \<not> DbBlock.canonical p) \<longleftrightarrow> parents \<noteq> []"
      unfolding parents_def by (auto simp: filter_empty_conv)
    have spec: "restoreOrphanedChain_spec db h =
       (if parents \<noteq> [] then restoreOrphanedChain_spec db4 (parent_index_block_hash b) else Inr db4)"
    proof -
      have o: "orphans_of db h = [b]" using 2 by (simp add: orphans_of_def)
      have r: "restore_one_spec db h b = db4"
        unfolding db4_def by (rule restore_step_spec[OF less.prems(2), symmetric])
      show ?thesis
        by (subst restoreOrphanedChain_spec.simps) (simp add: o r ex Let_def)
    qed
    have d4: "distinct (map DbBlock.index_block_hash (Database.blocks db4))"
      using less.prems(1) by (simp add: bs4)
    have i4: "distinct (map DbBlock.block_height (filter DbBlock.canonical (Database.blocks db4)))"
      unfolding bs4 by (rule canonical_heights_restored[OF less.prems 2])
    have le1: "length parents \<le> 1" unfolding parents_def by (rule parents_le1[OF d4])
    show ?thesis
    proof (cases "parents = []")
      case True
      with unf spec show ?thesis by (simp add: outcome_def)
    next
      case False
      then have len: "0 < length parents" by simp
      have p: "hd parents \<in> set (Database.blocks db4)"
        "Suc (DbBlock.block_height (hd parents)) = DbBlock.block_height b"
        "DbBlock.index_block_hash (hd parents) = parent_index_block_hash b"
        "\<not> DbBlock.canonical (hd parents)"
        using hd_in_filter[of _ "Database.blocks db4"] len unfolding parents_def by blast+
      have "orphan_height db4 (parent_index_block_hash b) \<le> Suc (DbBlock.block_height (hd parents))"
        using orphan_height_le[OF p(1)] p(3,4) by simp
      moreover have "orphan_height db h = Suc (DbBlock.block_height b)"
        using 2 by (simp add: orphan_height_def)
      ultimately have dec: "orphan_height db4 (parent_index_block_hash b) < orphan_height db h"
        using p(2) by simp
      have "outcome (restoreOrphanedChain db4 (parent_index_block_hash b)
                       (ue4\<lparr>UpdatedEntities.blocks := UpdatedEntities.blocks ue4 + 1\<rparr>))
            = restoreOrphanedChain_spec db4 (parent_index_block_hash b)"
        by (rule less.hyps[OF dec d4 i4])
      moreover have "restoreOrphanedChain db h ue =
          restoreOrphanedChain db4 (parent_index_block_hash b)
            (ue4\<lparr>UpdatedEntities.blocks := UpdatedEntities.blocks ue4 + 1\<rparr>)"
        using unf le1 len p(3) by simp
      ultimately show ?thesis using spec False by simp
    qed
  qed
qed

theorem restoreOrphanedChain_refines_spec_witness:
  "distinct (map DbBlock.index_block_hash (Database.blocks db_fork))
   \<and> distinct (map DbBlock.block_height (filter DbBlock.canonical (Database.blocks db_fork)))
   \<and> outcome (restoreOrphanedChain db_fork ''C2'' no_updates) = restoreOrphanedChain_spec db_fork ''C2''
   \<and> map_sum id (\<lambda>d. map DbBlock.canonical (Database.blocks d)) (restoreOrphanedChain_spec db_fork ''C2'')
       = Inr [True, False, False, True, True]
   \<and> map_sum id (\<lambda>d. map DbTx.canonical (Database.txs d)) (restoreOrphanedChain_spec db_fork ''C2'')
       = Inr [False, True]"
proof -
  have d: "distinct (map DbBlock.index_block_hash (Database.blocks db_fork))"
    and i: "distinct (map DbBlock.block_height (filter DbBlock.canonical (Database.blocks db_fork)))"
    by (simp_all add: example_defs)
  have e: "map_sum id (\<lambda>d. map DbBlock.canonical (Database.blocks d))
             (outcome (restoreOrphanedChain db_fork ''C2'' no_updates)) = Inr [True, False, False, True, True]"
    "map_sum id (\<lambda>d. map DbTx.canonical (Database.txs d))
             (outcome (restoreOrphanedChain db_fork ''C2'' no_updates)) = Inr [False, True]"
    by (simp_all add: outcome_def example_defs reorg_defs)
  from restoreOrphanedChain_refines_spec[OF d i, of "''C2''" no_updates] d i e
  show ?thesis by simp
qed

text \<open>
  C1 as stated fails: in a database whose only block is canonical, exactly one block has
  the hash asked for, yet \<open>restoreOrphanedChain\<close> throws that it could not find the block,
  because its first \<open>UPDATE\<close> matches non-canonical rows only.
\<close>

theorem restoreOrphanedChain_canonical_block_counterexample:
  "filter (\<lambda>x. DbBlock.index_block_hash x = ''A'') (Database.blocks db_single)
     = [mk_block ''A'' ''G'' 1 True]
   \<and> restoreOrphanedChain db_single ''A'' no_updates = (Inl (OrphanNotFound ''A''), db_single)"
  by (simp add: db_single_def example_defs reorg_defs)

section \<open>Termination of restoreOrphanedChain\<close>

text \<open>
  C10. \<open>restoreOrphanedChain_rel\<close> is the call relation of the definition of
  \<open>restoreOrphanedChain\<close>: it relates the arguments of a recursive call to the arguments
  of the activation that makes it. The relation is well-founded and every argument is in
  the domain of the function, so every call terminates. A recursive call is made by an
  activation that restored exactly one block, and is made on a non-canonical block found
  exactly one height below that block. Hence a chain of \<open>n\<close> nested recursive calls from
  an activation that restores block \<open>b\<close> has \<open>n\<close> at most the height of \<open>b\<close>, and an
  activation that finds no single block to restore makes no recursive call.
\<close>

theorem restoreOrphanedChain_terminates:
  "wfp restoreOrphanedChain_rel
   \<and> restoreOrphanedChain_dom (db, h, ue)
   \<and> (restoreOrphanedChain_rel (db', h', ue') (db, h, ue) \<longrightarrow>
        (\<exists>b p. orphans_of db h = [b] \<and> p \<in> set (Database.blocks db') \<and>
               DbBlock.index_block_hash p = h' \<and> \<not> DbBlock.canonical p \<and>
               Suc (DbBlock.block_height p) = DbBlock.block_height b))
   \<and> (\<forall>n y b. (restoreOrphanedChain_rel ^^ n) y (db, h, ue) \<and> orphans_of db h = [b]
               \<longrightarrow> n \<le> DbBlock.block_height b)
   \<and> (\<forall>n y. (restoreOrphanedChain_rel ^^ n) y (db, h, ue) \<and> (\<forall>b. orphans_of db h \<noteq> [b])
               \<longrightarrow> n = 0)"
proof (intro conjI allI impI)
  show wf: "wfp restoreOrphanedChain_rel"
    by (rule wfp_if_convertible_to_nat[where f = "\<lambda>x. orphan_height (fst x) (fst (snd x))"])
       (rule restore_rel_decreases)
  show "restoreOrphanedChain_dom (db, h, ue)"
    using wf by (rule accp_wfpD)
next
  assume "restoreOrphanedChain_rel (db', h', ue') (db, h, ue)"
  then show "\<exists>b p. orphans_of db h = [b] \<and> p \<in> set (Database.blocks db') \<and>
               DbBlock.index_block_hash p = h' \<and> \<not> DbBlock.canonical p \<and>
               Suc (DbBlock.block_height p) = DbBlock.block_height b"
    unfolding orphans_of_def by (rule restore_rel_caller) blast
next
  fix n y b
  assume "(restoreOrphanedChain_rel ^^ n) y (db, h, ue) \<and> orphans_of db h = [b]"
  then show "n \<le> DbBlock.block_height b"
    unfolding orphans_of_def using restore_depth by blast
next
  fix n y
  assume a: "(restoreOrphanedChain_rel ^^ n) y (db, h, ue) \<and> (\<forall>b. orphans_of db h \<noteq> [b])"
  show "n = 0"
  proof (cases n)
    case 0
    then show ?thesis .
  next
    case (Suc k)
    with a obtain z where zr: "restoreOrphanedChain_rel z (db, h, ue)"
      by (auto elim: relpowp_Suc_E)
    obtain dbz hz uez where z: "z = (dbz, hz, uez)" by (cases z) auto
    from zr[unfolded z] obtain b where "orphans_of db h = [b]"
      unfolding orphans_of_def by (rule restore_rel_caller)
    with a show ?thesis by blast
  qed
qed

theorem restoreOrphanedChain_terminates_witness:
  "restoreOrphanedChain_rel (db_fork_c2, ''B2'', no_updates\<lparr>UpdatedEntities.blocks := 1\<rparr>)
      (db_fork, ''C2'', no_updates)
   \<and> (restoreOrphanedChain_rel ^^ 1) (db_fork_c2, ''B2'', no_updates\<lparr>UpdatedEntities.blocks := 1\<rparr>)
        (db_fork, ''C2'', no_updates)
   \<and> orphans_of db_fork ''C2'' = [mk_block ''C2'' ''B2'' 3 False]
   \<and> mk_block ''B2'' ''A'' 2 False \<in> set (Database.blocks db_fork_c2)
   \<and> (1::nat) \<le> DbBlock.block_height (mk_block ''C2'' ''B2'' 3 False)
   \<and> restoreOrphanedChain_dom (db_fork, ''C2'', no_updates)"
proof -
  have o: "filter (\<lambda>x. DbBlock.index_block_hash x = ''C2'' \<and> \<not> DbBlock.canonical x) (Database.blocks db_fork)
            = [mk_block ''C2'' ''B2'' 3 False]"
    by (simp add: example_defs)
  have s: "restore_step db_fork ''C2'' (mk_block ''C2'' ''B2'' 3 False) no_updates = (db_fork_c2, no_updates)"
    by (simp add: restore_step_def restored_blocks_def db_fork_c2_def example_defs reorg_defs)
  have r: "restoreOrphanedChain_rel (db_fork_c2, DbBlock.index_block_hash (mk_block ''B2'' ''A'' 2 False),
             no_updates\<lparr>UpdatedEntities.blocks := UpdatedEntities.blocks no_updates + 1\<rparr>)
             (db_fork, ''C2'', no_updates)"
    by (rule restore_rel_intro[OF o]) (simp_all add: s, simp add: db_fork_c2_def example_defs)
  then have r': "restoreOrphanedChain_rel (db_fork_c2, ''B2'', no_updates\<lparr>UpdatedEntities.blocks := 1\<rparr>)
             (db_fork, ''C2'', no_updates)"
    by (simp add: example_defs)
  then have r1: "(restoreOrphanedChain_rel ^^ 1) (db_fork_c2, ''B2'', no_updates\<lparr>UpdatedEntities.blocks := 1\<rparr>)
        (db_fork, ''C2'', no_updates)" by auto
  have oo: "orphans_of db_fork ''C2'' = [mk_block ''C2'' ''B2'' 3 False]"
    using o by (simp add: orphans_of_def)
  have m: "mk_block ''B2'' ''A'' 2 False \<in> set (Database.blocks db_fork_c2)"
    by (simp add: db_fork_c2_def)
  from restoreOrphanedChain_terminates[of db_fork "''C2''" no_updates db_fork_c2 "''B2''"
         "no_updates\<lparr>UpdatedEntities.blocks := 1\<rparr>"] r1 oo
  have "(1::nat) \<le> DbBlock.block_height (mk_block ''C2'' ''B2'' 3 False)"
    and "restoreOrphanedChain_dom (db_fork, ''C2'', no_updates)" by blast+
  with r' r1 oo m show ?thesis by blast
qed

end
